(* ===== verification/Prelude.thy ===== *)
theory Prelude
  imports Main "HOL-Library.Word" "HOL-Library.Multiset"
begin

text \<open>
  Shared vocabulary of the crazyflie-link-cpp development: the types that name
  the model's data (bytes of a radio frame, connection handles), the error
  values that stand for the C++ exceptions and crashes of the source, the
  lemma collections the component theories feed, and generic lemmas on 8-bit
  words and lists that several components use.
\<close>

section \<open>Types\<close>

text \<open>A byte of a CRTP frame or of a USB transfer (\<open>uint8_t\<close>).\<close>

type_synonym byte = "8 word"

text \<open>
  A handle on one \<open>ConnectionImpl\<close> object. The source shares these objects
  between the \<open>Connection\<close> facade and the radio thread through
  \<open>std::shared_ptr\<close>; the model keeps them in an explicit store indexed by
  \<open>cid\<close>, and a \<open>std::set\<close> of shared pointers becomes a set of handles.
\<close>

type_synonym cid = nat

text \<open>
  The failures of the source. \<open>InvalidUri\<close> is the \<open>std::runtime_error\<close> of
  the \<open>Connection\<close> constructor, \<open>OutOfRange\<close> and \<open>InvalidArgument\<close> the
  exceptions of \<open>std::stoi\<close>, \<open>std::stoul\<close> and \<open>std::vector::at\<close>, and
  \<open>NullDeref\<close> a member call through an empty \<open>std::shared_ptr\<close> (undefined
  behaviour, in practice a crash).
\<close>

datatype link_error = InvalidUri | OutOfRange | InvalidArgument | NullDeref

section \<open>Lemma collections\<close>

named_theorems bits_simps "evaluation rules for the bit fields of a frame header"

section \<open>Generic lemmas\<close>

unbundle bit_operations_syntax

text \<open>
  Byte equalities built from masks and shifts are decided bit by bit: the
  eight bit positions are compared one at a time, and bits above 7 are zero.
\<close>

lemma byte_eq_bitwise:
  assumes "bit a 0 = bit b 0" "bit a 1 = bit b 1" "bit a 2 = bit b 2" "bit a 3 = bit b 3"
    "bit a 4 = bit b 4" "bit a 5 = bit b 5" "bit a 6 = bit b 6" "bit a 7 = bit b 7"
  shows "(a::byte) = b"
proof (rule bit_word_eqI)
  fix n assume "n < LENGTH(8)"
  then have "n = 0 \<or> n = 1 \<or> n = 2 \<or> n = 3 \<or> n = 4 \<or> n = 5 \<or> n = 6 \<or> n = 7" by auto
  with assms show "bit a n = bit b n" by auto
qed

lemma byte_bit_high [simp]: "8 \<le> n \<Longrightarrow> \<not> bit (b::byte) n"
  using bit_imp_le_length [of b n] by auto

lemma unat_byte_less: "unat (b::byte) < 256"
  using unsigned_less [of b, where ?'a = nat] by simp

lemma unat_and_mask_le: "unat ((b::byte) AND m) \<le> unat m"
  using word_and_le1 [of b m] by (simp add: word_le_nat_alt)

lemma in_set_tlD: "x \<in> set (tl xs) \<Longrightarrow> x \<in> set xs"
  by (cases xs) auto

lemma list_all_tl: "list_all P xs \<Longrightarrow> list_all P (tl xs)"
  by (cases xs) auto

text \<open>Sortedness of a list by a relation, read off two positions.\<close>

lemma sorted_wrt_nth:
  "sorted_wrt R xs \<Longrightarrow> i < j \<Longrightarrow> j < length xs \<Longrightarrow> R (xs ! i) (xs ! j)"
  by (simp add: sorted_wrt_iff_nth_less)

end
