(* ===== verification/Packet.thy ===== *)
theory Packet
  imports Prelude
begin

text \<open>
  The CRTP packet (\<open>Packet\<close>, declared in the library's \<open>Packet.h\<close>, which
  is not among the sources): a header byte, up to 30 payload bytes, the
  sequence number \<open>seq_\<close> that the queues assign, and the priority rank of
  the spec. The header carries the port in bits 7..4, the safelink bits in
  bits 3..2 (up-parity in bit 3, down-parity in bit 2) and the channel in
  bits 1..0; the source relies on this layout when it writes
  \<open>setSafelink(up << 1 | down)\<close> and tests \<open>ack.data()[0] & 0x04\<close> against
  the down-parity. The theory shows that the field accessors are bounded,
  that writing one field leaves the others alone, and that a frame
  serialised by \<open>raw\<close> parses back to itself.
\<close>

unbundle bit_operations_syntax

section \<open>Data\<close>

text \<open>The longest payload a frame may carry (spec 3, 8.9).\<close>

definition CRTP_MAX_PAYLOAD :: nat where
  "CRTP_MAX_PAYLOAD = 30"

record packet =
  pk_header :: byte
  pk_payload :: "byte list"
  pk_seq :: nat
  pk_priority :: nat

text \<open>The rank a packet has when the caller names none (the spec fixes no value).\<close>

definition default_priority :: nat where
  "default_priority = 128"

text \<open>\<open>Packet()\<close>: an empty frame with a zero header.\<close>

definition empty_packet :: packet where
  "empty_packet = \<lparr>pk_header = 0, pk_payload = [], pk_seq = 0, pk_priority = default_priority\<rparr>"

text \<open>
  \<open>Packet(data, size)\<close>: the first byte is the header, the rest the
  payload. The worker also builds a packet from an empty acknowledgement;
  that packet keeps the zero header of \<open>Packet()\<close>.
\<close>

definition packet_of_raw :: "byte list \<Rightarrow> packet" where
  "packet_of_raw bs =
     (case bs of [] \<Rightarrow> empty_packet
      | h # t \<Rightarrow> empty_packet\<lparr>pk_header := h, pk_payload := t\<rparr>)"

text \<open>\<open>raw()\<close> with \<open>size() + 1\<close> bytes: the frame as it goes on the wire.\<close>

definition raw :: "packet \<Rightarrow> byte list" where
  "raw p = pk_header p # pk_payload p"

definition pk_size :: "packet \<Rightarrow> nat" where
  "pk_size p = length (pk_payload p)"

text \<open>\<open>data()[i]\<close>: a payload byte; the packet's buffer is zero beyond the payload.\<close>

definition data_at :: "packet \<Rightarrow> nat \<Rightarrow> byte" where
  "data_at p i = (if i < length (pk_payload p) then pk_payload p ! i else 0)"

section \<open>Header fields\<close>

definition port :: "packet \<Rightarrow> byte" where
  "port p = drop_bit 4 (pk_header p)"

definition channel :: "packet \<Rightarrow> byte" where
  "channel p = pk_header p AND 3"

definition safelink :: "packet \<Rightarrow> byte" where
  "safelink p = drop_bit 2 (pk_header p) AND 3"

definition setPort :: "byte \<Rightarrow> packet \<Rightarrow> packet" where
  "setPort x p = p\<lparr>pk_header := (pk_header p AND 0x0F) OR push_bit 4 (x AND 15)\<rparr>"

definition setChannel :: "byte \<Rightarrow> packet \<Rightarrow> packet" where
  "setChannel x p = p\<lparr>pk_header := (pk_header p AND 0xFC) OR (x AND 3)\<rparr>"

definition setSafelink :: "byte \<Rightarrow> packet \<Rightarrow> packet" where
  "setSafelink s p = p\<lparr>pk_header := (pk_header p AND 0xF3) OR push_bit 2 (s AND 3)\<rparr>"

section \<open>Parsing\<close>

text \<open>
  Construction from received bytes as the spec states it (4.1, 8.9): a frame
  needs its header byte and at most \<open>CRTP_MAX_PAYLOAD\<close> payload bytes.
\<close>

definition packet_parse :: "byte list \<Rightarrow> packet option" where
  "packet_parse bs =
     (if bs = [] \<or> CRTP_MAX_PAYLOAD < length bs - 1 then None else Some (packet_of_raw bs))"

section \<open>Lemmas\<close>

lemma pk_size_raw: "length (raw p) = Suc (pk_size p)"
  by (simp add: raw_def pk_size_def)

lemma raw_packet_of_raw [simp]: "bs \<noteq> [] \<Longrightarrow> raw (packet_of_raw bs) = bs"
  by (cases bs) (simp_all add: raw_def packet_of_raw_def empty_packet_def)

lemma packet_of_raw_fields [simp]:
  "pk_seq (packet_of_raw bs) = 0"
  "pk_priority (packet_of_raw bs) = default_priority"
  by (simp_all add: packet_of_raw_def empty_packet_def split: list.split)

lemma setSafelink_simps [simp]:
  "pk_payload (setSafelink s p) = pk_payload p"
  "pk_seq (setSafelink s p) = pk_seq p"
  "pk_priority (setSafelink s p) = pk_priority p"
  by (simp_all add: setSafelink_def)

text \<open>Each setter writes its field and leaves the other two alone.\<close>

lemma fields_setSafelink [simp, bits_simps]:
  "port (setSafelink s p) = port p"
  "channel (setSafelink s p) = channel p"
  "safelink (setSafelink s p) = s AND 3"
  by (simp_all add: setSafelink_def port_def channel_def safelink_def;
      rule byte_eq_bitwise; simp add: bit_simps)+

lemma fields_setPort [simp, bits_simps]:
  "port (setPort x p) = x AND 15"
  "channel (setPort x p) = channel p"
  "safelink (setPort x p) = safelink p"
  by (simp_all add: setPort_def port_def channel_def safelink_def;
      rule byte_eq_bitwise; simp add: bit_simps)+

lemma fields_setChannel [simp, bits_simps]:
  "port (setChannel x p) = port p"
  "channel (setChannel x p) = x AND 3"
  "safelink (setChannel x p) = safelink p"
  by (simp_all add: setChannel_def port_def channel_def safelink_def;
      rule byte_eq_bitwise; simp add: bit_simps)+

text \<open>The two safelink bits of a header: up-parity in bit 3, down-parity in bit 2.\<close>

lemma header_safelink_bits [bits_simps]:
  "bit (pk_header (setSafelink s p)) 3 = bit s 1"
  "bit (pk_header (setSafelink s p)) 2 = bit s 0"
  by (simp_all add: setSafelink_def bit_simps)

section \<open>Bounds and round trips\<close>

text \<open>The header fields are bounded: the port is below 16, the channel and the safelink bits below 4.\<close>

lemma header_field_bounds:
  "unat (port p) < 16 \<and> unat (channel p) < 4 \<and> unat (safelink p) < 4"
proof -
  have "unat (port p) = unat (pk_header p) div 16"
    by (simp add: port_def drop_bit_eq_div unat_div)
  then have "unat (port p) < 16" using unat_byte_less [of "pk_header p"] by simp
  moreover have "unat (channel p) \<le> 3" "unat (safelink p) \<le> 3"
    using unat_and_mask_le [of _ 3] by (simp_all add: channel_def safelink_def)
  ultimately show ?thesis by simp
qed

text \<open>
  The header byte is exactly its three fields, and writing port, channel and safelink
  bits in turn reads back the values written (each masked to its width).
\<close>

lemma header_fields_roundtrip:
  "pk_header p = push_bit 4 (port p) OR push_bit 2 (safelink p) OR channel p \<and>
   port (setPort x (setChannel y (setSafelink z p))) = x AND 15 \<and>
   channel (setPort x (setChannel y (setSafelink z p))) = y AND 3 \<and>
   safelink (setPort x (setChannel y (setSafelink z p))) = z AND 3"
proof -
  have "pk_header p = push_bit 4 (port p) OR push_bit 2 (safelink p) OR channel p"
    unfolding port_def safelink_def channel_def
    by (rule byte_eq_bitwise; simp add: bit_simps)
  then show ?thesis by simp
qed

text \<open>
  Serialising a packet whose payload has at most 30 bytes and parsing the bytes back
  gives a packet with the same port, channel, safelink bits and payload.
\<close>

lemma raw_parse_roundtrip:
  assumes "pk_size p \<le> CRTP_MAX_PAYLOAD"
  shows "\<exists>p'. packet_parse (raw p) = Some p' \<and> raw p' = raw p \<and> port p' = port p \<and>
           channel p' = channel p \<and> safelink p' = safelink p \<and> pk_payload p' = pk_payload p"
  using assms
  by (auto simp: packet_parse_def raw_def pk_size_def packet_of_raw_def empty_packet_def
                 port_def channel_def safelink_def)

text \<open>
  A frame is accepted exactly when it has a header byte and at most 30 payload bytes:
  a 31-byte frame (payload 30) parses, a 32-byte frame (payload 31) does not.
\<close>

lemma parse_payload_bound:
  "(packet_parse bs \<noteq> None \<longleftrightarrow> bs \<noteq> [] \<and> length bs \<le> Suc CRTP_MAX_PAYLOAD) \<and>
   packet_parse (replicate 31 0) \<noteq> None \<and> packet_parse (replicate 32 0) = None"
  by (auto simp: packet_parse_def CRTP_MAX_PAYLOAD_def)

end
