(* ===== verification/PQueue.thy ===== *)
theory PQueue
  imports Packet
begin

text \<open>
  The per-connection queues \<open>queue_send_\<close> and \<open>queue_recv_\<close> are
  \<open>std::priority_queue<Packet>\<close> ordered by \<open>Packet::operator<\<close>: a packet is
  smaller when its priority is lower, or, at equal priority, when its
  sequence number is higher; \<open>top()\<close> is a greatest element. The model keeps
  the queue as a list sorted greatest first: \<open>push\<close> inserts, \<open>top\<close> is the
  head, \<open>pop\<close> drops the head. The abstract specification is a multiset with
  a maximal top; the refinement lemmas below show that the list implements
  it, and that packets of one priority leave in ascending sequence order.
\<close>

section \<open>Operations\<close>

text \<open>\<open>Packet::operator<\<close> as the spec states it (4.1).\<close>

definition pkt_less :: "packet \<Rightarrow> packet \<Rightarrow> bool" where
  "pkt_less a b \<longleftrightarrow>
     pk_priority a < pk_priority b \<or> (pk_priority a = pk_priority b \<and> pk_seq b < pk_seq a)"

text \<open>\<open>priority_queue::push\<close>: the new packet goes before the first smaller one.\<close>

fun pq_push :: "packet \<Rightarrow> packet list \<Rightarrow> packet list" where
  "pq_push p [] = [p]"
| "pq_push p (q # qs) = (if pkt_less q p then p # q # qs else q # pq_push p qs)"

text \<open>The representation invariant: no packet is smaller than one behind it.\<close>

definition pq_sorted :: "packet list \<Rightarrow> bool" where
  "pq_sorted q \<longleftrightarrow> sorted_wrt (\<lambda>a b. \<not> pkt_less a b) q"

text \<open>The abstract queue: a multiset, and what its top must be.\<close>

definition pq_is_top :: "packet \<Rightarrow> packet multiset \<Rightarrow> bool" where
  "pq_is_top p M \<longleftrightarrow> p \<in># M \<and> (\<forall>x \<in># M. \<not> pkt_less p x)"

section \<open>The order\<close>

lemma pkt_less_irrefl [simp]: "\<not> pkt_less a a"
  by (simp add: pkt_less_def)

lemma not_pkt_less_trans: "\<not> pkt_less a b \<Longrightarrow> \<not> pkt_less b c \<Longrightarrow> \<not> pkt_less a c"
  by (auto simp: pkt_less_def)

lemma pkt_less_trans: "pkt_less a b \<Longrightarrow> pkt_less b c \<Longrightarrow> pkt_less a c"
  by (auto simp: pkt_less_def)

lemma pkt_less_not_less: "pkt_less a b \<Longrightarrow> \<not> pkt_less b a"
  by (auto simp: pkt_less_def)

section \<open>Push and pop\<close>

lemma mset_pq_push [simp]: "mset (pq_push p q) = add_mset p (mset q)"
  by (induction q) auto

lemma set_pq_push [simp]: "set (pq_push p q) = insert p (set q)"
  by (induction q) auto

lemma length_pq_push [simp]: "length (pq_push p q) = Suc (length q)"
  by (induction q) auto

lemma pq_push_ne [simp]: "pq_push p q \<noteq> []"
  by (cases q) auto

lemma pq_sorted_Nil [simp]: "pq_sorted []"
  by (simp add: pq_sorted_def)

lemma pq_sorted_Cons: "pq_sorted (p # q) \<longleftrightarrow> (\<forall>x \<in> set q. \<not> pkt_less p x) \<and> pq_sorted q"
  by (simp add: pq_sorted_def)

lemma pq_sorted_tl: "pq_sorted q \<Longrightarrow> pq_sorted (tl q)"
  by (cases q) (simp_all add: pq_sorted_Cons)

lemma pq_sorted_push: "pq_sorted q \<Longrightarrow> pq_sorted (pq_push p q)"
proof (induction q)
  case Nil
  then show ?case by (simp add: pq_sorted_Cons)
next
  case (Cons a q)
  show ?case
  proof (cases "pkt_less a p")
    case True
    with Cons.prems show ?thesis
      by (auto simp: pq_sorted_Cons dest: pkt_less_not_less pkt_less_trans)
  next
    case False
    with Cons show ?thesis by (auto simp: pq_sorted_Cons)
  qed
qed

text \<open>A push that does not outrank the head keeps the head in place.\<close>

lemma pq_push_keeps_hd: "\<not> pkt_less a p \<Longrightarrow> pq_push p (a # q) = a # pq_push p q"
  by simp

section \<open>Refinement\<close>

text \<open>
  The sorted list refines the abstract priority queue: a push keeps the list sorted and
  adds the packet to the multiset; on a non-empty queue the head is a greatest element
  and popping it removes exactly that element.
\<close>

lemma pq_refines_multiset:
  assumes "pq_sorted q"
  shows "pq_sorted (pq_push p q) \<and> mset (pq_push p q) = add_mset p (mset q) \<and>
         (q \<noteq> [] \<longrightarrow> pq_is_top (hd q) (mset q) \<and> mset (tl q) = mset q - {#hd q#} \<and> pq_sorted (tl q))"
proof -
  have s: "pq_sorted (pq_push p q)" using assms by (rule pq_sorted_push)
  have t: "q \<noteq> [] \<longrightarrow> pq_is_top (hd q) (mset q) \<and> mset (tl q) = mset q - {#hd q#} \<and> pq_sorted (tl q)"
    using assms by (cases q) (auto simp: pq_is_top_def pq_sorted_Cons)
  show ?thesis using s t by simp
qed

text \<open>In a sorted queue, packets of equal priority stand in ascending sequence order, so they leave the queue in the order they were enqueued.\<close>

lemma pq_sorted_same_priority:
  assumes "pq_sorted q" "i < j" "j < length q" "pk_priority (q ! i) = pk_priority (q ! j)"
  shows "pk_seq (q ! i) \<le> pk_seq (q ! j)"
proof -
  have "\<not> pkt_less (q ! i) (q ! j)"
    using assms(1-3) unfolding pq_sorted_def by (rule sorted_wrt_nth)
  with assms(4) show ?thesis by (simp add: pkt_less_def)
qed

end
