(* ===== verification/Radio.thy ===== *)
theory Radio
  imports Prelude
begin

text \<open>
  The Crazyradio dongle driver (\<open>Crazyradio\<close>, declared in the library's
  \<open>Crazyradio.h\<close>, which is not among the sources). The driver caches the
  address, channel, datarate and acknowledgement mode it last set, and each
  setter costs one USB control transfer. The model records every USB
  transfer the driver makes in \<open>r_log\<close>, in order: the log is what the
  dongle, and through it the target, sees. \<open>sendPacket\<close> transmits one frame;
  the acknowledgement it returns comes from the environment (the target and
  the air), so the worker's step takes it as an argument of type
  \<open>ack_result\<close>: \<open>None\<close> for no acknowledgement, \<open>Some d\<close> for an
  acknowledgement with payload \<open>d\<close> (possibly empty).
\<close>

section \<open>Data\<close>

datatype datarate = Datarate_250KPS | Datarate_1MPS | Datarate_2MPS

datatype usb_op =
    OpSetAddress "64 word"
  | OpSetChannel int
  | OpSetDatarate datarate
  | OpSetAckEnabled bool
  | OpSendPacket "byte list"

record radio =
  r_address :: "64 word"
  r_channel :: int
  r_datarate :: datarate
  r_ack_enabled :: bool
  r_log :: "usb_op list"

type_synonym ack_result = "byte list option"

text \<open>
  \<open>Crazyradio(dev)\<close>: the dongle's power-on configuration (channel 2, 2M,
  address \<open>0xE7E7E7E7E7\<close>, acknowledgements on) and no transfer yet.
\<close>

definition radio_init :: radio where
  "radio_init = \<lparr>r_address = 0xE7E7E7E7E7, r_channel = 2, r_datarate = Datarate_2MPS,
     r_ack_enabled = True, r_log = []\<rparr>"

section \<open>Operations\<close>

definition radio_setAddress :: "64 word \<Rightarrow> radio \<Rightarrow> radio" where
  "radio_setAddress a r = r\<lparr>r_address := a, r_log := r_log r @ [OpSetAddress a]\<rparr>"

definition radio_setChannel :: "int \<Rightarrow> radio \<Rightarrow> radio" where
  "radio_setChannel c r = r\<lparr>r_channel := c, r_log := r_log r @ [OpSetChannel c]\<rparr>"

definition radio_setDatarate :: "datarate \<Rightarrow> radio \<Rightarrow> radio" where
  "radio_setDatarate d r = r\<lparr>r_datarate := d, r_log := r_log r @ [OpSetDatarate d]\<rparr>"

definition radio_setAckEnabled :: "bool \<Rightarrow> radio \<Rightarrow> radio" where
  "radio_setAckEnabled b r = r\<lparr>r_ack_enabled := b, r_log := r_log r @ [OpSetAckEnabled b]\<rparr>"

definition radio_sendPacket :: "byte list \<Rightarrow> radio \<Rightarrow> radio" where
  "radio_sendPacket bs r = r\<lparr>r_log := r_log r @ [OpSendPacket bs]\<rparr>"

text \<open>The frames a log transmits, in order.\<close>

fun sent_frames :: "usb_op list \<Rightarrow> byte list list" where
  "sent_frames [] = []"
| "sent_frames (OpSendPacket bs # ops) = bs # sent_frames ops"
| "sent_frames (_ # ops) = sent_frames ops"

section \<open>Lemmas\<close>

lemma sent_frames_append [simp]: "sent_frames (xs @ ys) = sent_frames xs @ sent_frames ys"
  by (induction xs rule: sent_frames.induct) auto

lemma radio_setters_simps [simp]:
  "r_address (radio_setAddress a r) = a"
  "r_channel (radio_setAddress a r) = r_channel r"
  "r_datarate (radio_setAddress a r) = r_datarate r"
  "r_ack_enabled (radio_setAddress a r) = r_ack_enabled r"
  "r_address (radio_setChannel c r) = r_address r"
  "r_channel (radio_setChannel c r) = c"
  "r_datarate (radio_setChannel c r) = r_datarate r"
  "r_ack_enabled (radio_setChannel c r) = r_ack_enabled r"
  "r_address (radio_setDatarate d r) = r_address r"
  "r_channel (radio_setDatarate d r) = r_channel r"
  "r_datarate (radio_setDatarate d r) = d"
  "r_ack_enabled (radio_setDatarate d r) = r_ack_enabled r"
  "r_address (radio_setAckEnabled b r) = r_address r"
  "r_channel (radio_setAckEnabled b r) = r_channel r"
  "r_datarate (radio_setAckEnabled b r) = r_datarate r"
  "r_ack_enabled (radio_setAckEnabled b r) = b"
  "r_address (radio_sendPacket bs r) = r_address r"
  "r_channel (radio_sendPacket bs r) = r_channel r"
  "r_datarate (radio_sendPacket bs r) = r_datarate r"
  "r_ack_enabled (radio_sendPacket bs r) = r_ack_enabled r"
  "r_log (radio_sendPacket bs r) = r_log r @ [OpSendPacket bs]"
  by (simp_all add: radio_setAddress_def radio_setChannel_def radio_setDatarate_def radio_setAckEnabled_def radio_sendPacket_def)

lemma radio_setters_log [simp]:
  "r_log (radio_setAddress a r) = r_log r @ [OpSetAddress a]"
  "r_log (radio_setChannel c r) = r_log r @ [OpSetChannel c]"
  "r_log (radio_setDatarate d r) = r_log r @ [OpSetDatarate d]"
  "r_log (radio_setAckEnabled b r) = r_log r @ [OpSetAckEnabled b]"
  by (simp_all add: radio_setAddress_def radio_setChannel_def radio_setDatarate_def radio_setAckEnabled_def)

end
