(* ===== verification/ConnImpl.thy ===== *)
theory ConnImpl
  imports PQueue Radio
begin

text \<open>
  The per-connection state \<open>ConnectionImpl\<close> (declared in the library's
  \<open>ConnectionImpl.h\<close>, not among the sources; its fields are the ones
  \<open>Connection.cpp\<close> and \<open>CrazyradioThread.cpp\<close> read and write) and its
  statistics counters \<open>Connection::Statistics\<close>. \<open>c_usb\<close> stands for the
  \<open>crazyflieUSB_\<close> shared pointer: \<open>Some i\<close> when the connection was opened
  on USB device \<open>i\<close>, \<open>None\<close> for the empty pointer of a radio connection.
  The 64-bit counters are unbounded \<open>nat\<close>s: at one increment per
  millisecond they cannot wrap in the lifetime of a process. The theory also
  states the connection's well-formedness invariant \<open>conn_inv\<close>.
\<close>

section \<open>Data\<close>

record statistics =
  enqueued_count :: nat
  sent_count :: nat
  ack_count :: nat
  receive_count :: nat
  rssi_latest :: byte

record conn_impl =
  c_uri :: string
  c_devid :: int
  c_usb :: "nat option"
  c_channel :: int
  c_datarate :: datarate
  c_address :: "64 word"
  c_useSafelink :: bool
  c_safelinkInitialized :: bool
  c_safelinkUp :: bool
  c_safelinkDown :: bool
  c_queue_send :: "packet list"
  c_queue_recv :: "packet list"
  c_stats :: statistics

definition stats_init :: statistics where
  "stats_init = \<lparr>enqueued_count = 0, sent_count = 0, ack_count = 0, receive_count = 0,
     rssi_latest = 0\<rparr>"

text \<open>\<open>std::make_shared<ConnectionImpl>()\<close>: empty queues, zero counters.\<close>

definition conn_default :: conn_impl where
  "conn_default = \<lparr>c_uri = [], c_devid = 0, c_usb = None, c_channel = 0,
     c_datarate = Datarate_250KPS, c_address = 0, c_useSafelink = False,
     c_safelinkInitialized = False, c_safelinkUp = False, c_safelinkDown = False,
     c_queue_send = [], c_queue_recv = [], c_stats = stats_init\<rparr>"

section \<open>Counter updates\<close>

text \<open>\<open>++con->statistics_.sent_count\<close> and its siblings.\<close>

definition count_sent :: "conn_impl \<Rightarrow> conn_impl" where
  "count_sent c = c\<lparr>c_stats := (c_stats c)\<lparr>sent_count := Suc (sent_count (c_stats c))\<rparr>\<rparr>"

definition count_ack :: "conn_impl \<Rightarrow> conn_impl" where
  "count_ack c = c\<lparr>c_stats := (c_stats c)\<lparr>ack_count := Suc (ack_count (c_stats c))\<rparr>\<rparr>"

section \<open>Invariant\<close>

text \<open>
  Both queues are sorted as \<open>std::priority_queue\<close> keeps them, every
  queued packet carries a sequence number below the counter that issued it,
  and no more packets were received than acknowledged, nor acknowledged than
  sent.
\<close>

definition conn_inv :: "conn_impl \<Rightarrow> bool" where
  "conn_inv c \<longleftrightarrow>
     pq_sorted (c_queue_send c) \<and> pq_sorted (c_queue_recv c) \<and>
     list_all (\<lambda>p. pk_seq p < enqueued_count (c_stats c)) (c_queue_send c) \<and>
     list_all (\<lambda>p. pk_seq p < receive_count (c_stats c)) (c_queue_recv c) \<and>
     receive_count (c_stats c) \<le> ack_count (c_stats c) \<and>
     ack_count (c_stats c) \<le> sent_count (c_stats c)"

section \<open>Lemmas\<close>

lemma count_sent_simps [simp]:
  "c_queue_send (count_sent c) = c_queue_send c"
  "c_queue_recv (count_sent c) = c_queue_recv c"
  "c_safelinkUp (count_sent c) = c_safelinkUp c"
  "c_safelinkDown (count_sent c) = c_safelinkDown c"
  "c_safelinkInitialized (count_sent c) = c_safelinkInitialized c"
  "c_useSafelink (count_sent c) = c_useSafelink c"
  "c_address (count_sent c) = c_address c"
  "c_channel (count_sent c) = c_channel c"
  "c_datarate (count_sent c) = c_datarate c"
  "c_uri (count_sent c) = c_uri c"
  "c_usb (count_sent c) = c_usb c"
  "c_devid (count_sent c) = c_devid c"
  "sent_count (c_stats (count_sent c)) = Suc (sent_count (c_stats c))"
  "ack_count (c_stats (count_sent c)) = ack_count (c_stats c)"
  "receive_count (c_stats (count_sent c)) = receive_count (c_stats c)"
  "enqueued_count (c_stats (count_sent c)) = enqueued_count (c_stats c)"
  "rssi_latest (c_stats (count_sent c)) = rssi_latest (c_stats c)"
  by (simp_all add: count_sent_def)

lemma count_ack_simps [simp]:
  "c_queue_send (count_ack c) = c_queue_send c"
  "c_queue_recv (count_ack c) = c_queue_recv c"
  "c_safelinkUp (count_ack c) = c_safelinkUp c"
  "c_safelinkDown (count_ack c) = c_safelinkDown c"
  "c_safelinkInitialized (count_ack c) = c_safelinkInitialized c"
  "c_useSafelink (count_ack c) = c_useSafelink c"
  "c_address (count_ack c) = c_address c"
  "c_channel (count_ack c) = c_channel c"
  "c_datarate (count_ack c) = c_datarate c"
  "c_uri (count_ack c) = c_uri c"
  "c_usb (count_ack c) = c_usb c"
  "c_devid (count_ack c) = c_devid c"
  "sent_count (c_stats (count_ack c)) = sent_count (c_stats c)"
  "ack_count (c_stats (count_ack c)) = Suc (ack_count (c_stats c))"
  "receive_count (c_stats (count_ack c)) = receive_count (c_stats c)"
  "enqueued_count (c_stats (count_ack c)) = enqueued_count (c_stats c)"
  "rssi_latest (c_stats (count_ack c)) = rssi_latest (c_stats c)"
  by (simp_all add: count_ack_def)

lemma conn_inv_default: "conn_inv conn_default"
  by (simp add: conn_inv_def conn_default_def stats_init_def)

end
