(* ===== verification/Worker.thy ===== *)
theory Worker
  imports ConnImpl
begin

text \<open>
  The body of the radio thread's loop, \<open>CrazyradioThread::run\<close>
  (src/src/CrazyradioThread.cpp, lines 78-207). One pass of the loop takes a
  snapshot of the attached connections and performs, for each of them in
  the snapshot's order, one transmit-and-acknowledge cycle: reconfigure the
  radio where the connection's address, channel or datarate differ from the
  radio's, choose the frame (the safelink handshake, the queue's top with
  the safelink bits, the queue's top, or a ping), transmit it, and
  process the acknowledgement. The acknowledgement of each transmission is
  an argument: the model holds for every behaviour of the target and the
  air. The lemmas give each branch's effect on the connection, the radio
  and the frames on the wire, and show that a cycle keeps \<open>conn_inv\<close>.
\<close>

unbundle bit_operations_syntax

section \<open>Frames\<close>

text \<open>\<open>enableSafelink[] = {0xFF, 0x05, 1}\<close> and \<open>ping[] = {0xFF}\<close> (lines 82-83).\<close>

definition enableSafelink :: "byte list" where
  "enableSafelink = [0xFF, 0x05, 1]"

definition ping :: "byte list" where
  "ping = [0xFF]"

section \<open>One cycle\<close>

text \<open>Lines 114-129: reconfigure the radio only where it differs.\<close>

definition reconfigure :: "conn_impl \<Rightarrow> radio \<Rightarrow> radio" where
  "reconfigure c r =
     (let r1 = (if r_address r \<noteq> c_address c then radio_setAddress (c_address c) r else r);
          r2 = (if r_channel r1 \<noteq> c_channel c then radio_setChannel (c_channel c) r1 else r1);
          r3 = (if r_datarate r2 \<noteq> c_datarate c then radio_setDatarate (c_datarate c) r2 else r2)
      in if \<not> r_ack_enabled r3 then radio_setAckEnabled True r3 else r3)"

text \<open>Lines 136-141: the safelink handshake.\<close>

definition send_safelink_init :: "ack_result \<Rightarrow> conn_impl \<Rightarrow> radio \<Rightarrow> conn_impl \<times> radio" where
  "send_safelink_init a c r =
     (let r' = radio_sendPacket enableSafelink r;
          c' = count_sent c
      in (if a \<noteq> None then c'\<lparr>c_safelinkInitialized := True\<rparr> else c', r'))"

text \<open>
  Lines 145-164: the queue's top (or a ping) with the safelink bits
  \<open>up << 1 | down\<close>. The down-parity flips when the acknowledgement's first
  byte echoes it in bit 2; on any acknowledgement the up-parity flips and
  the top is popped.
\<close>

definition safelink_bits :: "conn_impl \<Rightarrow> byte" where
  "safelink_bits c = push_bit 1 (of_bool (c_safelinkUp c)) OR of_bool (c_safelinkDown c)"

definition safelink_frame :: "conn_impl \<Rightarrow> packet" where
  "safelink_frame c =
     setSafelink (safelink_bits c)
       (case c_queue_send c of [] \<Rightarrow> packet_of_raw ping | p # _ \<Rightarrow> p)"

definition down_echoed :: "conn_impl \<Rightarrow> byte list \<Rightarrow> bool" where
  "down_echoed c d \<longleftrightarrow> 0 < length d \<and> (d ! 0 AND 4) = push_bit 2 (of_bool (c_safelinkDown c))"

definition send_safelink :: "ack_result \<Rightarrow> conn_impl \<Rightarrow> radio \<Rightarrow> conn_impl \<times> radio" where
  "send_safelink a c r =
     (let r' = radio_sendPacket (raw (safelink_frame c)) r;
          c1 = count_sent c;
          c2 = (case a of
                  Some d \<Rightarrow> if down_echoed c d then c1\<lparr>c_safelinkDown := \<not> c_safelinkDown c\<rparr> else c1
                | None \<Rightarrow> c1);
          c3 = (if a \<noteq> None
                then c2\<lparr>c_safelinkUp := \<not> c_safelinkUp c,
                        c_queue_send := (if c_queue_send c \<noteq> [] then tl (c_queue_send c)
                                         else c_queue_send c)\<rparr>
                else c2)
      in (c3, r'))"

text \<open>Lines 168-183: without safelink, the top is popped once acknowledged.\<close>

definition send_plain :: "ack_result \<Rightarrow> conn_impl \<Rightarrow> radio \<Rightarrow> conn_impl \<times> radio" where
  "send_plain a c r =
     (case c_queue_send c of
        p # q \<Rightarrow>
          (let r' = radio_sendPacket (raw p) r;
               c1 = count_sent c
           in (if a \<noteq> None then c1\<lparr>c_queue_send := q\<rparr> else c1, r'))
      | [] \<Rightarrow> (count_sent c, radio_sendPacket ping r))"

text \<open>
  Lines 187-205: an acknowledgement is counted; one on port 15, channel 3
  only updates \<open>rssi_latest\<close> from its payload byte 1, any other is
  stamped with \<open>receive_count\<close> and pushed onto the receive queue.
\<close>

definition is_rssi :: "packet \<Rightarrow> bool" where
  "is_rssi p \<longleftrightarrow> port p = 15 \<and> channel p = 3"

definition deliver_ack :: "ack_result \<Rightarrow> conn_impl \<Rightarrow> conn_impl" where
  "deliver_ack a c =
     (case a of
        None \<Rightarrow> c
      | Some d \<Rightarrow>
          (let c1 = count_ack c; p = packet_of_raw d in
           if is_rssi p
           then c1\<lparr>c_stats := (c_stats c1)\<lparr>rssi_latest := data_at p 1\<rparr>\<rparr>
           else c1\<lparr>c_queue_recv := pq_push (p\<lparr>pk_seq := receive_count (c_stats c1)\<rparr>) (c_queue_recv c1),
                   c_stats := (c_stats c1)\<lparr>receive_count := Suc (receive_count (c_stats c1))\<rparr>\<rparr>))"

text \<open>Lines 135-184: the choice between the three ways of transmitting.\<close>

definition select_send :: "ack_result \<Rightarrow> conn_impl \<Rightarrow> radio \<Rightarrow> conn_impl \<times> radio" where
  "select_send a c r =
     (if c_useSafelink c then
        (if \<not> c_safelinkInitialized c then send_safelink_init a c r else send_safelink a c r)
      else send_plain a c r)"

text \<open>Lines 114-205: the whole cycle for one connection.\<close>

definition con_cycle :: "ack_result \<Rightarrow> conn_impl \<Rightarrow> radio \<Rightarrow> conn_impl \<times> radio" where
  "con_cycle a c r =
     (let (c', r') = select_send a c (reconfigure c r)
      in (deliver_ack a c', r'))"

text \<open>The frame a cycle transmits, read off the connection before the cycle.\<close>

definition next_frame :: "conn_impl \<Rightarrow> byte list" where
  "next_frame c =
     (if c_useSafelink c then
        (if \<not> c_safelinkInitialized c then enableSafelink else raw (safelink_frame c))
      else (case c_queue_send c of p # _ \<Rightarrow> raw p | [] \<Rightarrow> ping))"

section \<open>One pass of the loop\<close>

text \<open>
  The state of a \<open>CrazyradioThread\<close>: the attached connections
  (\<open>connections_\<close>), the removal handshake flag (\<open>connections_updated_\<close>),
  the termination request (\<open>thread_ending_\<close>), the \<open>std::thread\<close> (none,
  running, or finished but not yet joined) and the radio the running thread
  owns. The \<open>std::set\<close> of shared pointers is iterated in pointer order;
  the model iterates in the order of the handles, and no lemma depends on
  the order.
\<close>

datatype thread_st = NoThread | Running | Exited

record worker =
  w_connections :: "cid set"
  w_updated :: bool
  w_thread_ending :: bool
  w_thread :: thread_st
  w_radio :: radio

text \<open>\<open>CrazyradioThread(dev)\<close> (lines 8-13).\<close>

definition worker_init :: worker where
  "worker_init = \<lparr>w_connections = {}, w_updated = False, w_thread_ending = False,
     w_thread = NoThread, w_radio = radio_init\<rparr>"

text \<open>Lines 107-206: one cycle for each connection of the snapshot, in order.\<close>

fun run_cycles :: "(cid \<Rightarrow> ack_result) \<Rightarrow> cid list \<Rightarrow> (cid \<Rightarrow> conn_impl option) \<Rightarrow> radio
    \<Rightarrow> (cid \<Rightarrow> conn_impl option) \<times> radio" where
  "run_cycles env [] st r = (st, r)"
| "run_cycles env (i # is) st r =
     (case st i of
        None \<Rightarrow> run_cycles env is st r
      | Some c \<Rightarrow> run_cycles env is (st(i \<mapsto> fst (con_cycle (env i) c r))) (snd (con_cycle (env i) c r)))"

text \<open>
  Lines 89-106: copy the connection set and raise \<open>connections_updated_\<close>
  under the lock, then either leave the loop (the thread has finished and
  waits to be joined) or run the cycles. \<open>env i\<close> is the acknowledgement
  the target returns to connection \<open>i\<close> in this pass.
\<close>

definition worker_pass :: "(cid \<Rightarrow> ack_result) \<Rightarrow> worker \<Rightarrow> (cid \<Rightarrow> conn_impl option)
    \<Rightarrow> worker \<times> (cid \<Rightarrow> conn_impl option)" where
  "worker_pass env w st =
     (let copy = sorted_list_of_set (w_connections w);
          w1 = w\<lparr>w_updated := True\<rparr>
      in if w_thread_ending w then (w1\<lparr>w_thread := Exited\<rparr>, st)
         else (let (st', r') = run_cycles env copy st (w_radio w) in (w1\<lparr>w_radio := r'\<rparr>, st')))"

text \<open>What the frame-selection branches do to a connection.\<close>

definition sends_once :: "conn_impl \<Rightarrow> conn_impl \<Rightarrow> bool" where
  "sends_once c c' \<longleftrightarrow>
     c_stats c' = (c_stats c)\<lparr>sent_count := Suc (sent_count (c_stats c))\<rparr> \<and>
     c_queue_recv c' = c_queue_recv c \<and>
     (c_queue_send c' = c_queue_send c \<or> c_queue_send c' = tl (c_queue_send c))"

text \<open>A connection with one queued frame, for the witnesses below.\<close>

definition demo_conn :: conn_impl where
  "demo_conn = conn_default\<lparr>c_queue_send := [empty_packet\<lparr>pk_header := 0x20, pk_payload := [7]\<rparr>],
     c_stats := stats_init\<lparr>enqueued_count := 1\<rparr>\<rparr>"

section \<open>Lemmas on one cycle\<close>

lemma reconfigure_radio [simp]:
  "r_address (reconfigure c r) = c_address c"
  "r_channel (reconfigure c r) = c_channel c"
  "r_datarate (reconfigure c r) = c_datarate c"
  "r_ack_enabled (reconfigure c r) = True"
  by (simp_all add: reconfigure_def Let_def)

lemma sent_frames_reconfigure [simp]: "sent_frames (r_log (reconfigure c r)) = sent_frames (r_log r)"
  by (simp add: reconfigure_def Let_def)

lemma reconfigure_configured:
  "r_address r = c_address c \<Longrightarrow> r_channel r = c_channel c \<Longrightarrow> r_datarate r = c_datarate c
   \<Longrightarrow> r_ack_enabled r \<Longrightarrow> reconfigure c r = r"
  by (simp add: reconfigure_def)

lemmas cycle_defs = con_cycle_def select_send_def send_safelink_init_def send_safelink_def send_plain_def

lemma con_cycle_frame:
  "sent_frames (r_log (snd (con_cycle a c r))) = sent_frames (r_log r) @ [next_frame c]"
  by (simp add: cycle_defs next_frame_def Let_def split: list.split)

lemma con_cycle_radio:
  "r_address (snd (con_cycle a c r)) = c_address c"
  "r_channel (snd (con_cycle a c r)) = c_channel c"
  "r_datarate (snd (con_cycle a c r)) = c_datarate c"
  "r_ack_enabled (snd (con_cycle a c r))"
  by (simp_all add: cycle_defs Let_def split: list.split)

lemma deliver_ack_None [simp]: "deliver_ack None c = c"
  by (simp add: deliver_ack_def)

lemma con_cycle_no_ack: "fst (con_cycle None c r) = count_sent c"
  by (simp add: cycle_defs Let_def split: list.split)

lemma sends_once_branches:
  "sends_once c (fst (send_safelink_init a c r))"
  "sends_once c (fst (send_safelink a c r))"
  "sends_once c (fst (send_plain a c r))"
  by (simp_all add: sends_once_def cycle_defs count_sent_def Let_def split: list.split option.split)

lemma sends_once_select: "sends_once c (fst (select_send a c r))"
  by (simp add: select_send_def sends_once_branches)

lemma fst_con_cycle: "fst (con_cycle a c r) = deliver_ack a (fst (select_send a c (reconfigure c r)))"
  by (simp add: con_cycle_def split: prod.split)

lemma conn_inv_sends_once:
  assumes "conn_inv c" "sends_once c c'"
  shows "conn_inv c'" "ack_count (c_stats c') < sent_count (c_stats c')"
  using assms by (auto simp: conn_inv_def sends_once_def pq_sorted_tl list_all_tl)

lemma conn_inv_deliver_ack:
  assumes "conn_inv c" "a \<noteq> None \<Longrightarrow> ack_count (c_stats c) < sent_count (c_stats c)"
  shows "conn_inv (deliver_ack a c)"
  using assms
  by (auto simp: conn_inv_def deliver_ack_def count_ack_def pq_sorted_push list_all_iff Let_def
           split: option.split)

lemma conn_inv_con_cycle: "conn_inv c \<Longrightarrow> conn_inv (fst (con_cycle a c r))"
proof -
  assume inv: "conn_inv c"
  define c' where "c' = fst (select_send a c (reconfigure c r))"
  have s: "sends_once c c'" and eq: "fst (con_cycle a c r) = deliver_ack a c'"
    by (simp_all add: c'_def sends_once_select fst_con_cycle)
  from inv s have "conn_inv c'" "ack_count (c_stats c') < sent_count (c_stats c')"
    by (rule conn_inv_sends_once)+
  then show ?thesis unfolding eq by (intro conn_inv_deliver_ack)
qed

lemma count_sent_fields_eq: "next_frame (count_sent c) = next_frame c"
  by (simp add: next_frame_def safelink_frame_def safelink_bits_def)

lemma con_cycle_stats:
  "sent_count (c_stats (fst (con_cycle a c r))) = Suc (sent_count (c_stats c))"
  "ack_count (c_stats (fst (con_cycle a c r))) = ack_count (c_stats c) + (if a = None then 0 else 1)"
  "receive_count (c_stats (fst (con_cycle a c r))) =
     receive_count (c_stats c) + (case a of Some d \<Rightarrow> if is_rssi (packet_of_raw d) then 0 else 1 | None \<Rightarrow> 0)"
  "enqueued_count (c_stats (fst (con_cycle a c r))) = enqueued_count (c_stats c)"
proof -
  define c' where "c' = fst (select_send a c (reconfigure c r))"
  have s: "sends_once c c'" by (simp add: c'_def sends_once_select)
  have eq: "fst (con_cycle a c r) = deliver_ack a c'" by (simp add: c'_def fst_con_cycle)
  show "sent_count (c_stats (fst (con_cycle a c r))) = Suc (sent_count (c_stats c))"
    "ack_count (c_stats (fst (con_cycle a c r))) = ack_count (c_stats c) + (if a = None then 0 else 1)"
    "receive_count (c_stats (fst (con_cycle a c r))) =
     receive_count (c_stats c) + (case a of Some d \<Rightarrow> if is_rssi (packet_of_raw d) then 0 else 1 | None \<Rightarrow> 0)"
    "enqueued_count (c_stats (fst (con_cycle a c r))) = enqueued_count (c_stats c)"
    using s unfolding eq
    by (auto simp: sends_once_def deliver_ack_def count_ack_def Let_def split: option.split)
qed

lemma con_cycle_consts:
  "c_uri (fst (con_cycle a c r)) = c_uri c"
  "c_address (fst (con_cycle a c r)) = c_address c"
  "c_channel (fst (con_cycle a c r)) = c_channel c"
  "c_datarate (fst (con_cycle a c r)) = c_datarate c"
  "c_useSafelink (fst (con_cycle a c r)) = c_useSafelink c"
  "c_usb (fst (con_cycle a c r)) = c_usb c"
  by (simp_all add: cycle_defs deliver_ack_def count_ack_def Let_def split: list.split option.split)

lemma select_send_safelink_ack:
  assumes "c_useSafelink c" "c_safelinkInitialized c"
  shows "c_safelinkUp (fst (select_send (Some d) c r)) = (\<not> c_safelinkUp c)"
    "c_safelinkDown (fst (select_send (Some d) c r)) = (c_safelinkDown c \<noteq> down_echoed c d)"
    "c_queue_send (fst (select_send (Some d) c r)) = tl (c_queue_send c)"
    "c_safelinkInitialized (fst (select_send (Some d) c r))"
  using assms by (auto simp: select_send_def send_safelink_def Let_def)

lemma deliver_ack_safelink_fields [simp]:
  "c_safelinkUp (deliver_ack a c) = c_safelinkUp c"
  "c_safelinkDown (deliver_ack a c) = c_safelinkDown c"
  "c_safelinkInitialized (deliver_ack a c) = c_safelinkInitialized c"
  "c_queue_send (deliver_ack a c) = c_queue_send c"
  "c_useSafelink (deliver_ack a c) = c_useSafelink c"
  by (simp_all add: deliver_ack_def Let_def split: option.split)

section \<open>Lemmas on a pass\<close>

lemma run_cycles_other: "i \<notin> set is \<Longrightarrow> fst (run_cycles env is st r) i = st i"
  by (induction "is" arbitrary: st r) (auto split: option.split)

lemma run_cycles_dom: "dom (fst (run_cycles env is st r)) = dom st"
  by (induction "is" arbitrary: st r) (auto split: option.split)

lemma run_cycles_inv:
  "(\<forall>c \<in> ran st. conn_inv c) \<Longrightarrow> (\<forall>c \<in> ran (fst (run_cycles env is st r)). conn_inv c)"
proof (induction "is" arbitrary: st r)
  case Nil
  then show ?case by simp
next
  case (Cons i "is")
  show ?case
  proof (cases "st i")
    case None
    with Cons show ?thesis by simp
  next
    case (Some c)
    have "conn_inv c" using Cons.prems Some by (auto intro: ranI)
    then have "conn_inv (fst (con_cycle (env i) c r))" by (rule conn_inv_con_cycle)
    then have "\<forall>x \<in> ran (st(i \<mapsto> fst (con_cycle (env i) c r))). conn_inv x"
      using Cons.prems by (auto simp: ran_def)
    with Cons.IH Some show ?thesis by simp
  qed
qed

lemma run_cycles_once:
  assumes "distinct is" "i \<in> set is" "st i = Some c"
  shows "\<exists>r0. fst (run_cycles env is st r) i = Some (fst (con_cycle (env i) c r0))"
  using assms
proof (induction "is" arbitrary: st r)
  case Nil
  then show ?case by simp
next
  case (Cons j "is")
  show ?case
  proof (cases "i = j")
    case True
    then have "i \<notin> set is" using Cons.prems(1) by simp
    with True Cons.prems(3) show ?thesis by (auto simp: run_cycles_other)
  next
    case False
    show ?thesis
    proof (cases "st j")
      case None
      with Cons.IH Cons.prems False show ?thesis by simp
    next
      case (Some cj)
      with Cons.IH Cons.prems False show ?thesis by simp
    qed
  qed
qed

section \<open>Properties\<close>

text \<open>C1: One transmit-and-acknowledge cycle keeps the connection invariant: both queues stay sorted, queued sequence numbers stay below their counters, and receive_count <= ack_count <= sent_count, whatever the acknowledgement.\<close>

theorem cycle_keeps_invariant:
  assumes "conn_inv c" "con_cycle a c r = (c', r')"
  shows "conn_inv c'"
  using assms conn_inv_con_cycle [of c a r] by simp

theorem cycle_keeps_invariant_witness:
  "conn_inv demo_conn \<and> conn_inv (fst (con_cycle (Some [0x30, 5]) demo_conn radio_init))"
proof -
  have i: "conn_inv demo_conn"
    by (simp add: conn_inv_def demo_conn_def conn_default_def stats_init_def empty_packet_def pq_sorted_def)
  show ?thesis
    using i cycle_keeps_invariant [OF i, of "Some [0x30, 5]" radio_init
        "fst (con_cycle (Some [0x30, 5]) demo_conn radio_init)"
        "snd (con_cycle (Some [0x30, 5]) demo_conn radio_init)"] by simp
qed

text \<open>C2: Every cycle puts exactly one frame on the wire (the handshake, the safelink frame, the queue top or a ping, as next_frame chooses), increments sent_count by one and ack_count by one exactly when an acknowledgement came back.\<close>

theorem cycle_transmits_one_frame:
  "sent_frames (r_log (snd (con_cycle a c r))) = sent_frames (r_log r) @ [next_frame c] \<and>
   sent_count (c_stats (fst (con_cycle a c r))) = Suc (sent_count (c_stats c)) \<and>
   ack_count (c_stats (fst (con_cycle a c r))) = ack_count (c_stats c) + (if a = None then 0 else 1)"
  by (simp add: con_cycle_frame con_cycle_stats)

text \<open>C4: A cycle without acknowledgement changes nothing but sent_count, so the next cycle transmits the same frame again (with the same safelink bits).\<close>

theorem lost_ack_retransmits:
  "fst (con_cycle None c r) = count_sent c \<and> next_frame (fst (con_cycle None c r)) = next_frame c"
  by (simp add: con_cycle_no_ack count_sent_fields_eq)

text \<open>C13: Without safelink, a cycle transmits the top of the send queue and pops it exactly when the transmission was acknowledged.\<close>

theorem plain_ack_pops_head:
  assumes "\<not> c_useSafelink c" "c_queue_send c = p # q" "a \<noteq> None"
  shows "next_frame c = raw p \<and> c_queue_send (fst (con_cycle a c r)) = q"
  using assms by (auto simp: next_frame_def fst_con_cycle select_send_def send_plain_def Let_def)

theorem plain_ack_pops_head_witness:
  "\<not> c_useSafelink demo_conn \<and> next_frame demo_conn = [0x20, 7] \<and>
   c_queue_send (fst (con_cycle (Some []) demo_conn radio_init)) = []"
proof -
  have h: "\<not> c_useSafelink demo_conn"
    "c_queue_send demo_conn = (empty_packet\<lparr>pk_header := 0x20, pk_payload := [7]\<rparr>) # []"
    "Some [] \<noteq> (None :: ack_result)"
    by (simp_all add: demo_conn_def conn_default_def)
  show ?thesis
    using plain_ack_pops_head [OF h, of radio_init] h(1) by (simp add: raw_def)
qed

text \<open>C15: An acknowledgement whose header is port 15, channel 3 only updates rssi_latest from its payload byte 1; the receive queue and receive_count are unchanged.\<close>

theorem rssi_ack_not_enqueued:
  assumes "is_rssi (packet_of_raw d)"
  shows "c_queue_recv (fst (con_cycle (Some d) c r)) = c_queue_recv c \<and>
         rssi_latest (c_stats (fst (con_cycle (Some d) c r))) = data_at (packet_of_raw d) 1 \<and>
         receive_count (c_stats (fst (con_cycle (Some d) c r))) = receive_count (c_stats c)"
proof -
  define c' where "c' = fst (select_send (Some d) c (reconfigure c r))"
  have "sends_once c c'" by (simp add: c'_def sends_once_select)
  then show ?thesis
    using assms by (simp add: fst_con_cycle c'_def [symmetric] deliver_ack_def count_ack_def sends_once_def)
qed

theorem rssi_ack_not_enqueued_witness:
  "is_rssi (packet_of_raw [0xF3, 1, 77]) \<and>
   rssi_latest (c_stats (fst (con_cycle (Some [0xF3, 1, 77]) demo_conn radio_init))) = 77"
proof -
  have h: "is_rssi (packet_of_raw [0xF3, 1, 77])"
    by (simp add: is_rssi_def port_def channel_def packet_of_raw_def empty_packet_def)
  show ?thesis using h rssi_ack_not_enqueued [OF h, of demo_conn radio_init]
    by (simp add: data_at_def packet_of_raw_def empty_packet_def)
qed

text \<open>C16: Any other acknowledgement is pushed onto the receive queue stamped with the current receive_count, which then increases by one.\<close>

theorem ack_enqueued_with_seq:
  assumes "\<not> is_rssi (packet_of_raw d)"
  shows "mset (c_queue_recv (fst (con_cycle (Some d) c r))) =
           add_mset ((packet_of_raw d)\<lparr>pk_seq := receive_count (c_stats c)\<rparr>) (mset (c_queue_recv c)) \<and>
         receive_count (c_stats (fst (con_cycle (Some d) c r))) = Suc (receive_count (c_stats c))"
proof -
  define c' where "c' = fst (select_send (Some d) c (reconfigure c r))"
  have "sends_once c c'" by (simp add: c'_def sends_once_select)
  then show ?thesis
    using assms by (simp add: fst_con_cycle c'_def [symmetric] deliver_ack_def count_ack_def sends_once_def)
qed

theorem ack_enqueued_with_seq_witness:
  "\<not> is_rssi (packet_of_raw [0x30, 5]) \<and>
   c_queue_recv (fst (con_cycle (Some [0x30, 5]) demo_conn radio_init)) =
     [(packet_of_raw [0x30, 5])\<lparr>pk_seq := 0\<rparr>]"
proof -
  have h: "\<not> is_rssi (packet_of_raw [0x30, 5])"
    by (simp add: is_rssi_def port_def channel_def packet_of_raw_def empty_packet_def)
  have "mset (c_queue_recv (fst (con_cycle (Some [0x30, 5]) demo_conn radio_init))) =
        mset [(packet_of_raw [0x30, 5])\<lparr>pk_seq := 0\<rparr>]"
    using ack_enqueued_with_seq [OF h, of demo_conn radio_init]
    by (simp add: demo_conn_def conn_default_def stats_init_def)
  then show ?thesis using h by simp
qed

text \<open>C17: When the radio is already set to the connection's address, channel and datarate with acknowledgements on, the cycle makes no control transfer: the frame is the only USB transfer.\<close>

theorem reconfigure_only_when_needed:
  assumes "r_address r = c_address c" "r_channel r = c_channel c" "r_datarate r = c_datarate c"
    "r_ack_enabled r"
  shows "r_log (snd (con_cycle a c r)) = r_log r @ [OpSendPacket (next_frame c)]"
  using assms by (simp add: reconfigure_configured cycle_defs next_frame_def Let_def split: list.split)

theorem reconfigure_only_when_needed_witness:
  "r_log (snd (con_cycle None (demo_conn\<lparr>c_address := 0xE7E7E7E7E7, c_channel := 2,
      c_datarate := Datarate_2MPS\<rparr>) radio_init)) = [OpSendPacket [0x20, 7]]"
  using reconfigure_only_when_needed [of radio_init "demo_conn\<lparr>c_address := 0xE7E7E7E7E7, c_channel := 2,
      c_datarate := Datarate_2MPS\<rparr>" None]
  by (simp add: radio_init_def next_frame_def demo_conn_def conn_default_def raw_def)

text \<open>C14: A safelink connection that is not yet initialised sends the handshake frame {0xFF, 0x05, 1}, leaves the send queue alone, and is initialised exactly when the handshake is acknowledged.\<close>

theorem safelink_handshake:
  assumes "c_useSafelink c" "\<not> c_safelinkInitialized c"
  shows "next_frame c = enableSafelink \<and>
         c_queue_send (fst (con_cycle a c r)) = c_queue_send c \<and>
         c_safelinkInitialized (fst (con_cycle a c r)) = (a \<noteq> None)"
  using assms by (simp add: next_frame_def fst_con_cycle select_send_def send_safelink_init_def Let_def)

theorem safelink_handshake_witness:
  "c_safelinkInitialized (fst (con_cycle (Some []) (demo_conn\<lparr>c_useSafelink := True\<rparr>) radio_init)) \<and>
   next_frame (demo_conn\<lparr>c_useSafelink := True\<rparr>) = [0xFF, 0x05, 1]"
  using safelink_handshake [of "demo_conn\<lparr>c_useSafelink := True\<rparr>" "Some []" radio_init]
  by (simp add: demo_conn_def conn_default_def enableSafelink_def)

text \<open>C3: On an acknowledged safelink transmission the up-parity flips, the down-parity flips exactly when the acknowledgement echoes it in bit 2, and the top of the send queue is popped.\<close>

theorem safelink_ack_transition:
  assumes "c_useSafelink c" "c_safelinkInitialized c" "con_cycle (Some d) c r = (c', r')"
  shows "c_safelinkUp c' = (\<not> c_safelinkUp c) \<and>
         c_safelinkDown c' = (c_safelinkDown c \<noteq> down_echoed c d) \<and>
         c_queue_send c' = tl (c_queue_send c) \<and>
         sent_frames (r_log r') = sent_frames (r_log r) @ [raw (safelink_frame c)]"
proof -
  have c': "c' = fst (con_cycle (Some d) c r)" and r': "r' = snd (con_cycle (Some d) c r)"
    using assms(3) by simp_all
  show ?thesis
    using assms(1,2) con_cycle_frame [of "Some d" c r]
    by (simp add: c' r' fst_con_cycle select_send_safelink_ack next_frame_def)
qed

theorem safelink_ack_transition_witness:
  "c_safelinkUp (fst (con_cycle (Some [0x04]) (demo_conn\<lparr>c_useSafelink := True, c_safelinkInitialized := True\<rparr>) radio_init))"
proof -
  let ?c = "demo_conn\<lparr>c_useSafelink := True, c_safelinkInitialized := True\<rparr>"
  have h: "c_useSafelink ?c" "c_safelinkInitialized ?c" by simp_all
  have "con_cycle (Some [0x04]) ?c radio_init = (fst (con_cycle (Some [0x04]) ?c radio_init), snd (con_cycle (Some [0x04]) ?c radio_init))"
    by simp
  from safelink_ack_transition [OF h this] show ?thesis by (simp add: demo_conn_def conn_default_def)
qed

text \<open>C18: A pass of the loop that is not asked to end runs exactly one cycle on every attached connection: its sent_count grows by one.\<close>

theorem pass_cycles_each_once:
  assumes "finite (w_connections w)" "i \<in> w_connections w" "st i = Some c" "\<not> w_thread_ending w"
  shows "\<exists>c'. snd (worker_pass env w st) i = Some c' \<and>
           sent_count (c_stats c') = Suc (sent_count (c_stats c)) \<and> c_uri c' = c_uri c"
proof -
  have "\<exists>r0. fst (run_cycles env (sorted_list_of_set (w_connections w)) st (w_radio w)) i =
             Some (fst (con_cycle (env i) c r0))"
    using assms(1-3) by (intro run_cycles_once) simp_all
  then show ?thesis
    using assms(4) by (auto simp: worker_pass_def Let_def con_cycle_stats con_cycle_consts split: prod.split)
qed

theorem pass_cycles_each_once_witness:
  "\<exists>c'. snd (worker_pass (\<lambda>_. None) (worker_init\<lparr>w_connections := {0}\<rparr>) [0 \<mapsto> demo_conn]) 0 = Some c' \<and>
     sent_count (c_stats c') = 1 \<and> c_uri c' = []"
  using pass_cycles_each_once [of "worker_init\<lparr>w_connections := {0}\<rparr>" 0 "[0 \<mapsto> demo_conn]" demo_conn
      "\<lambda>_. None"]
  by (simp add: worker_init_def demo_conn_def conn_default_def stats_init_def)

text \<open>C19: A pass does not touch a connection outside the snapshot of attached connections.\<close>

theorem pass_leaves_detached:
  assumes "i \<notin> w_connections w" "finite (w_connections w)"
  shows "snd (worker_pass env w st) i = st i"
  using assms by (simp add: worker_pass_def Let_def run_cycles_other case_prod_unfold)

theorem pass_leaves_detached_witness:
  "snd (worker_pass (\<lambda>_. None) (worker_init\<lparr>w_connections := {0}\<rparr>) [0 \<mapsto> demo_conn, 1 \<mapsto> demo_conn]) 1
     = Some demo_conn"
  using pass_leaves_detached [of 1 "worker_init\<lparr>w_connections := {0}\<rparr>" "\<lambda>_. None"
      "[0 \<mapsto> demo_conn, 1 \<mapsto> demo_conn]"]
  by (simp add: worker_init_def)

text \<open>C20: The safelink frame keeps the port, channel and payload of the queued packet (or of the ping) and carries the up-parity in header bit 3 and the down-parity in bit 2, the bit the acknowledgement test reads.\<close>

theorem safelink_frame_header:
  "port (safelink_frame c) = port (case c_queue_send c of [] \<Rightarrow> packet_of_raw ping | p # _ \<Rightarrow> p) \<and>
   channel (safelink_frame c) = channel (case c_queue_send c of [] \<Rightarrow> packet_of_raw ping | p # _ \<Rightarrow> p) \<and>
   pk_payload (safelink_frame c) = pk_payload (case c_queue_send c of [] \<Rightarrow> packet_of_raw ping | p # _ \<Rightarrow> p) \<and>
   bit (hd (raw (safelink_frame c))) 3 = c_safelinkUp c \<and>
   bit (hd (raw (safelink_frame c))) 2 = c_safelinkDown c"
  by (simp add: safelink_frame_def raw_def header_safelink_bits safelink_bits_def bit_simps)

end
