(* ===== verification/Uri.thy ===== *)
theory Uri
  imports Prelude Radio
begin

text \<open>
  The URI grammar of the \<open>Connection\<close> constructor (src/src/Connection.cpp,
  lines 22-26) and the number conversions it applies to the captured
  groups (lines 37-56). \<open>std::regex_match\<close> accepts the whole string against
  \<^verbatim>\<open>usb://(\d+) | radio://(\d+|\*)/(\d+)/(250K|1M|2M)/([a-fA-F0-9]{10}|\*)\<close>;
  no group can hold a \<open>/\<close>, so the radio form splits at its slashes into
  exactly four fields. \<open>std::stoi\<close> throws \<open>std::out_of_range\<close> above
  \<open>INT_MAX\<close>; \<open>std::stoul(s, nullptr, 16)\<close> reads the longest hexadecimal
  prefix and throws \<open>std::invalid_argument\<close> when there is none.
\<close>

section \<open>Characters\<close>

text \<open>The character code (ASCII) of a character.\<close>

definition ord :: "char \<Rightarrow> nat" where
  "ord c = of_char c"

definition is_digit :: "char \<Rightarrow> bool" where
  "is_digit c \<longleftrightarrow> 48 \<le> ord c \<and> ord c \<le> 57"

definition is_hex :: "char \<Rightarrow> bool" where
  "is_hex c \<longleftrightarrow> is_digit c \<or> (97 \<le> ord c \<and> ord c \<le> 102) \<or>
     (65 \<le> ord c \<and> ord c \<le> 70)"

definition hex_val :: "char \<Rightarrow> nat" where
  "hex_val c =
     (if is_digit c then ord c - 48
      else if 97 \<le> ord c \<and> ord c \<le> 102 then ord c - 87
      else ord c - 55)"

text \<open>The value of a string of decimal (base 10) or hexadecimal (base 16) digits.\<close>

definition digits_val :: "nat \<Rightarrow> string \<Rightarrow> nat" where
  "digits_val b s = foldl (\<lambda>n c. b * n + hex_val c) 0 s"

section \<open>The regular expression\<close>

fun split_on :: "char \<Rightarrow> string \<Rightarrow> string list" where
  "split_on d [] = [[]]"
| "split_on d (x # xs) =
     (let r = split_on d xs in if x = d then [] # r else (x # hd r) # tl r)"

definition digits1 :: "string \<Rightarrow> bool" where
  "digits1 s \<longleftrightarrow> s \<noteq> [] \<and> list_all is_digit s"

text \<open>The captured groups of a successful match: group 2, or groups 3 to 6.\<close>

datatype uri_match = UsbMatch string | RadioMatch string string string string

definition regex_match_uri :: "string \<Rightarrow> uri_match option" where
  "regex_match_uri s =
     (if take 6 s = ''usb://'' \<and> digits1 (drop 6 s) then Some (UsbMatch (drop 6 s))
      else if take 8 s = ''radio://'' then
        (case split_on CHR ''/'' (drop 8 s) of
           [d, ch, dr, a] \<Rightarrow>
             if (digits1 d \<or> d = ''*'') \<and> digits1 ch \<and> dr \<in> {''250K'', ''1M'', ''2M''} \<and>
                ((length a = 10 \<and> list_all is_hex a) \<or> a = ''*'')
             then Some (RadioMatch d ch dr a) else None
         | _ \<Rightarrow> None)
      else None)"

section \<open>Conversions\<close>

definition INT_MAX :: nat where
  "INT_MAX = 2 ^ 31 - 1"

text \<open>\<open>std::stoi\<close> on a string of decimal digits.\<close>

definition stoi :: "string \<Rightarrow> link_error + int" where
  "stoi s = (let n = digits_val 10 s in if INT_MAX < n then Inl OutOfRange else Inr (int n))"

text \<open>\<open>std::stoul(s, nullptr, 16)\<close> (\<open>unsigned long\<close> is 64 bits).\<close>

definition stoul_hex :: "string \<Rightarrow> link_error + 64 word" where
  "stoul_hex s =
     (let h = takeWhile is_hex s
      in if h = [] then Inl InvalidArgument
         else if 2 ^ 64 \<le> digits_val 16 h then Inl OutOfRange
         else Inr (word_of_nat (digits_val 16 h)))"

text \<open>Lines 49-55: the datarate group.\<close>

definition datarate_of :: "string \<Rightarrow> datarate" where
  "datarate_of s =
     (if s = ''250K'' then Datarate_250KPS else if s = ''1M'' then Datarate_1MPS
      else Datarate_2MPS)"

section \<open>Printing numbers\<close>

text \<open>\<open>std::to_string\<close> of a non-negative number.\<close>

definition digit_char :: "nat \<Rightarrow> char" where
  "digit_char d = ''0123456789'' ! d"

fun dec_string :: "nat \<Rightarrow> string" where
  "dec_string n =
     (if n < 10 then [digit_char n] else dec_string (n div 10) @ [digit_char (n mod 10)])"

declare dec_string.simps [simp del]

section \<open>Lemmas\<close>

lemma digit_char_props: "d < 10 \<Longrightarrow> is_digit (digit_char d) \<and> hex_val (digit_char d) = d \<and> CHR ''/'' \<noteq> digit_char d"
proof -
  assume "d < 10"
  then have "d \<in> {0,1,2,3,4,5,6,7,8,9}" by auto
  then show ?thesis by (auto simp: digit_char_def is_digit_def hex_val_def ord_def)
qed

lemma digits_val_snoc: "digits_val b (xs @ [c]) = b * digits_val b xs + hex_val c"
  by (simp add: digits_val_def)

lemma dec_string_props:
  "dec_string n \<noteq> [] \<and> list_all is_digit (dec_string n) \<and> CHR ''/'' \<notin> set (dec_string n) \<and>
   digits_val 10 (dec_string n) = n"
proof (induction n rule: dec_string.induct)
  case (1 n)
  show ?case
  proof (cases "n < 10")
    case True
    then show ?thesis using digit_char_props [of n]
      by (auto simp: dec_string.simps [of n] digits_val_def)
  next
    case False
    have m: "n mod 10 < 10" by simp
    from False "1.IH" have ih: "dec_string (n div 10) \<noteq> [] \<and> list_all is_digit (dec_string (n div 10)) \<and>
        CHR ''/'' \<notin> set (dec_string (n div 10)) \<and> digits_val 10 (dec_string (n div 10)) = n div 10"
      by simp
    show ?thesis using False ih digit_char_props [OF m]
      by (simp add: dec_string.simps [of n] digits_val_snoc)
  qed
qed

lemma split_on_no_sep: "d \<notin> set x \<Longrightarrow> split_on d x = [x]"
  by (induction x) (auto simp: Let_def)

lemma split_on_sep: "d \<notin> set x \<Longrightarrow> split_on d (x @ d # y) = x # split_on d y"
  by (induction x) (auto simp: Let_def)

lemma digits1_dec_string: "digits1 (dec_string n)"
  using dec_string_props [of n] by (simp add: digits1_def)

lemma stoi_dec_string: "n \<le> INT_MAX \<Longrightarrow> stoi (dec_string n) = Inr (int n)"
  using dec_string_props [of n] by (simp add: stoi_def)

lemma hex_val_less: "is_hex c \<Longrightarrow> hex_val c < 16"
  by (auto simp: is_hex_def hex_val_def is_digit_def)

lemma digits_val_bound: "list_all is_hex s \<Longrightarrow> digits_val 16 s < 16 ^ length s"
proof (induction s rule: rev_induct)
  case Nil
  then show ?case by (simp add: digits_val_def)
next
  case (snoc c s)
  then have "digits_val 16 s < 16 ^ length s" "hex_val c < 16" by (simp_all add: hex_val_less)
  then have "16 * digits_val 16 s + hex_val c < 16 * 16 ^ length s" by linarith
  then show ?case by (simp add: digits_val_snoc)
qed

lemma stoul_hex_10:
  assumes "length a = 10" "list_all is_hex a"
  shows "stoul_hex a = Inr (word_of_nat (digits_val 16 a))"
proof -
  have b: "digits_val 16 a < 16 ^ 10" using digits_val_bound [OF assms(2)] assms(1) by simp
  have tw: "takeWhile is_hex a = a" using assms(2) by (simp add: list_all_iff)
  have ne: "a \<noteq> []" using assms(1) by auto
  show ?thesis unfolding stoul_hex_def Let_def tw using ne b by simp
qed

lemma hex_no_slash: "list_all is_hex a \<Longrightarrow> CHR ''/'' \<notin> set a"
  by (auto simp: list_all_iff is_hex_def is_digit_def ord_def)

end
