(* ===== verification/Connection.thy ===== *)
theory Connection
  imports Worker Uri
begin

text \<open>
  The \<open>Connection\<close> facade (src/src/Connection.cpp). The constructor
  matches the URI, converts its groups and builds the \<open>ConnectionImpl\<close>;
  for a radio URI it then hands the connection to the \<open>USBManager\<close>
  (\<open>addRadioConnection\<close>, modelled with the worker in \<open>Lifecycle\<close>).
  \<open>send\<close> and \<open>recv\<close> branch on \<open>crazyflieUSB_\<close>, the destructor detaches
  radio connections, and \<open>scan\<close> probes 3 datarates times 125 channels.
\<close>

section \<open>Constructor\<close>

text \<open>Lines 13-65. \<open>n_usb\<close> is the number of Crazyflies on USB the \<open>USBManager\<close> lists.\<close>

definition connection_create :: "string \<Rightarrow> bool \<Rightarrow> nat \<Rightarrow> link_error + conn_impl" where
  "connection_create uri use_safelink n_usb =
     (case regex_match_uri uri of
        None \<Rightarrow> Inl InvalidUri
      | Some (UsbMatch g2) \<Rightarrow>
          (case stoi g2 of
             Inl e \<Rightarrow> Inl e
           | Inr d \<Rightarrow>
               if nat d < n_usb then Inr (conn_default\<lparr>c_uri := uri, c_devid := d, c_usb := Some (nat d)\<rparr>)
               else Inl OutOfRange)
      | Some (RadioMatch g3 g4 g5 g6) \<Rightarrow>
          (case (if g3 = ''*'' then Inr (-1) else stoi g3) of
             Inl e \<Rightarrow> Inl e
           | Inr d \<Rightarrow>
               (case stoi g4 of
                  Inl e \<Rightarrow> Inl e
                | Inr ch \<Rightarrow>
                    (case stoul_hex g6 of
                       Inl e \<Rightarrow> Inl e
                     | Inr a \<Rightarrow>
                         Inr (conn_default\<lparr>c_uri := uri, c_devid := d, c_channel := ch,
                                c_datarate := datarate_of g5, c_address := a,
                                c_useSafelink := use_safelink, c_safelinkInitialized := False,
                                c_safelinkUp := False, c_safelinkDown := False\<rparr>)))))"

section \<open>Send and receive\<close>

text \<open>Lines 134-137: stamp the packet with \<open>enqueued_count\<close> and push it.\<close>

definition enqueue_send :: "packet \<Rightarrow> conn_impl \<Rightarrow> conn_impl" where
  "enqueue_send p c =
     c\<lparr>c_queue_send := pq_push (p\<lparr>pk_seq := enqueued_count (c_stats c)\<rparr>) (c_queue_send c),
       c_stats := (c_stats c)\<lparr>enqueued_count := Suc (enqueued_count (c_stats c))\<rparr>\<rparr>"

text \<open>
  Lines 128-139. The test is \<open>if (!impl_->crazyflieUSB_)\<close>: with an empty
  pointer (a radio connection) the call goes through the null pointer; with
  a USB device the packet is queued.
\<close>

definition connection_send :: "packet \<Rightarrow> conn_impl \<Rightarrow> link_error + conn_impl" where
  "connection_send p c = (if c_usb c = None then Inl NullDeref else Inr (enqueue_send p c))"

text \<open>
  Lines 149-166: the receive queue. A blocking call on an empty queue waits
  on the condition variable (\<open>Waits\<close>); a non-blocking one returns the
  empty packet.
\<close>

datatype recv_outcome = Got packet conn_impl | Waits

definition recv_queue_pop :: "bool \<Rightarrow> conn_impl \<Rightarrow> recv_outcome" where
  "recv_queue_pop blocking c =
     (case c_queue_recv c of
        [] \<Rightarrow> if blocking then Waits else Got empty_packet c
      | p # q \<Rightarrow> Got p (c\<lparr>c_queue_recv := q\<rparr>))"

text \<open>Lines 141-168, with the same test as \<open>send\<close>.\<close>

definition connection_recv :: "bool \<Rightarrow> conn_impl \<Rightarrow> link_error + recv_outcome" where
  "connection_recv blocking c = (if c_usb c = None then Inl NullDeref else Inr (recv_queue_pop blocking c))"

section \<open>Destructor and accessors\<close>

text \<open>Lines 67-73: whether the destructor calls \<open>removeRadioConnection\<close>.\<close>

definition destructor_detaches :: "conn_impl \<Rightarrow> bool" where
  "destructor_detaches c \<longleftrightarrow> c_usb c = None"

text \<open>Lines 177-180 and 170-175.\<close>

definition connection_uri :: "conn_impl \<Rightarrow> string" where
  "connection_uri c = c_uri c"

definition connection_show :: "conn_impl \<Rightarrow> string" where
  "connection_show c = ''Connection('' @ c_uri c @ '')''"

section \<open>Scan\<close>

text \<open>Line 94: a radio URI is the concatenation of its four fields.\<close>

definition radio_uri :: "string \<Rightarrow> string \<Rightarrow> string \<Rightarrow> string \<Rightarrow> string" where
  "radio_uri d ch dr a = ''radio://'' @ d @ ''/'' @ ch @ ''/'' @ dr @ ''/'' @ a"

text \<open>The group of the URI that names a datarate.\<close>

definition datarate_str :: "datarate \<Rightarrow> string" where
  "datarate_str dr =
     (case dr of Datarate_250KPS \<Rightarrow> ''250K'' | Datarate_1MPS \<Rightarrow> ''1M'' | Datarate_2MPS \<Rightarrow> ''2M'')"

definition scan_address :: "string \<Rightarrow> string" where
  "scan_address a = (if a = [] then ''E7E7E7E7E7'' else a)"

definition scan_datarates :: "string list" where
  "scan_datarates = [''250K'', ''1M'', ''2M'']"

text \<open>Lines 91-95: the probe URIs, datarate-major, channels \<open>0 \<le> channel < 125\<close>.\<close>

definition scan_uris :: "string \<Rightarrow> string list" where
  "scan_uris a =
     concat (map (\<lambda>dr. map (\<lambda>ch. radio_uri ''*'' (dec_string ch) dr (scan_address a)) [0..<125])
                 scan_datarates)"

text \<open>
  Lines 97-113: a probe thread opens the connection (its exception, if
  any, is rethrown by \<open>future.get()\<close>) and, once \<open>sent_count \<ge> 1\<close>,
  reports success when \<open>ack_count \<ge> 1\<close>. \<open>probe_decide\<close> is one poll:
  \<open>None\<close> while nothing has been sent.
\<close>

definition probe_decide :: "statistics \<Rightarrow> bool option" where
  "probe_decide st = (if 1 \<le> sent_count st then Some (1 \<le> ack_count st) else None)"

text \<open>
  Lines 117-123: collect the futures in order; the first one that holds an
  exception rethrows it, the others contribute their URI when it succeeded.
\<close>

fun collect_probes :: "(string \<Rightarrow> link_error + bool) \<Rightarrow> string list \<Rightarrow> link_error + string list" where
  "collect_probes f [] = Inr []"
| "collect_probes f (u # us) =
     (case f u of
        Inl e \<Rightarrow> Inl e
      | Inr b \<Rightarrow> (case collect_probes f us of Inl e \<Rightarrow> Inl e | Inr r \<Rightarrow> Inr (if b then u # r else r)))"

text \<open>Lines 75-126: the USB targets, then the radio targets that answered.\<close>

definition scan :: "nat \<Rightarrow> string \<Rightarrow> (string \<Rightarrow> link_error + bool) \<Rightarrow> link_error + string list" where
  "scan n_usb address probe =
     (case collect_probes probe (scan_uris address) of
        Inl e \<Rightarrow> Inl e
      | Inr r \<Rightarrow> Inr (map (\<lambda>i. ''usb://'' @ dec_string i) [0..<n_usb] @ r))"

section \<open>Lemmas\<close>

lemmas uri_eval = regex_match_uri_def digits1_def is_digit_def is_hex_def ord_def stoi_def
  stoul_hex_def digits_val_def hex_val_def INT_MAX_def datarate_of_def

lemma datarate_str_props: "CHR ''/'' \<notin> set (datarate_str dr) \<and> datarate_of (datarate_str dr) = dr \<and>
   datarate_str dr \<in> {''250K'', ''1M'', ''2M''}"
  by (cases dr) (simp_all add: datarate_str_def datarate_of_def)

lemma create_uri: "connection_create u sl k = Inr c \<Longrightarrow> c_uri c = u"
  by (auto simp: connection_create_def split: option.splits uri_match.splits sum.splits if_splits)

lemma radio_not_usb_prefix: "take 8 u = ''radio://'' \<Longrightarrow> take 6 u \<noteq> ''usb://''"
proof -
  assume r: "take 8 u = ''radio://''"
  have "take 6 u = take 6 (take 8 u)" by simp
  with r show ?thesis by simp
qed

lemma create_cases:
  assumes "connection_create u sl k = Inr c"
  shows "(take 6 u = ''usb://'' \<and> c_usb c \<noteq> None \<and> c_queue_recv c = []) \<or>
         (take 8 u = ''radio://'' \<and> c_usb c = None)"
  using assms
  by (auto simp: connection_create_def regex_match_uri_def conn_default_def
           split: option.splits uri_match.splits sum.splits if_splits list.splits)

lemma create_radio_no_usb:
  "connection_create u sl k = Inr c \<Longrightarrow> take 8 u = ''radio://'' \<Longrightarrow> c_usb c = None"
  using create_cases radio_not_usb_prefix by blast

lemma create_usb_has_usb:
  "connection_create u sl k = Inr c \<Longrightarrow> take 6 u = ''usb://'' \<Longrightarrow> c_usb c \<noteq> None \<and> c_queue_recv c = []"
  using create_cases radio_not_usb_prefix by blast

lemma scan_uri_field:
  assumes "ch < 125" "dr \<in> set scan_datarates" "radio_uri ''*'' (dec_string ch) dr A = radio_uri ''*'' x dr' A'"
    "CHR ''/'' \<notin> set x"
  shows "x = dec_string ch"
proof -
  have "CHR ''/'' \<notin> set (dec_string ch)" using dec_string_props [of ch] by simp
  then have "split_on CHR ''/'' (drop 10 (radio_uri ''*'' (dec_string ch) dr A)) = dec_string ch # split_on CHR ''/'' (dr @ ''/'' @ A)"
    by (simp add: radio_uri_def split_on_sep)
  moreover have "split_on CHR ''/'' (drop 10 (radio_uri ''*'' x dr' A')) = x # split_on CHR ''/'' (dr' @ ''/'' @ A')"
    using assms(4) by (simp add: radio_uri_def split_on_sep)
  ultimately show ?thesis using assms(3) by simp
qed

lemma collect_probes_ok:
  "(\<forall>u \<in> set us. f u = Inr (ok u)) \<Longrightarrow> collect_probes f us = Inr (filter ok us)"
  by (induction us) auto

lemma regex_radio_address:
  "regex_match_uri u = Some (RadioMatch d ch dr a) \<Longrightarrow> (length a = 10 \<and> list_all is_hex a) \<or> a = ''*''"
  by (auto simp: regex_match_uri_def split: if_splits list.splits)

lemma stoi_errors: "stoi g \<noteq> Inl InvalidArgument" "stoi g \<noteq> Inl InvalidUri"
  by (simp_all add: stoi_def Let_def)

lemma stoul_hex_star: "stoul_hex ''*'' = Inl InvalidArgument"
  by (simp add: stoul_hex_def is_hex_def is_digit_def ord_def)

lemma stoul_hex_not_uri: "stoul_hex a \<noteq> Inl InvalidUri"
  by (simp add: stoul_hex_def Let_def)

section \<open>Properties\<close>

text \<open>C9: A canonical radio URI printed from a dongle index and a channel (both at most INT_MAX), a datarate and ten hexadecimal digits is accepted by the constructor, which recovers exactly these values and keeps the URI string.\<close>

theorem radio_uri_roundtrip:
  assumes "n \<le> INT_MAX" "ch \<le> INT_MAX" "length a = 10" "list_all is_hex a"
  shows "connection_create (radio_uri (dec_string n) (dec_string ch) (datarate_str dr) a) sl k =
           Inr (conn_default\<lparr>c_uri := radio_uri (dec_string n) (dec_string ch) (datarate_str dr) a,
              c_devid := int n, c_channel := int ch, c_datarate := dr,
              c_address := word_of_nat (digits_val 16 a), c_useSafelink := sl,
              c_safelinkInitialized := False, c_safelinkUp := False, c_safelinkDown := False\<rparr>)"
proof -
  let ?u = "radio_uri (dec_string n) (dec_string ch) (datarate_str dr) a"
  have sl: "CHR ''/'' \<notin> set (dec_string n)" "CHR ''/'' \<notin> set (dec_string ch)"
    "CHR ''/'' \<notin> set (datarate_str dr)" "CHR ''/'' \<notin> set a"
    using dec_string_props datarate_str_props hex_no_slash [OF assms(4)] by simp_all
  have split: "split_on CHR ''/'' (drop 8 ?u) = [dec_string n, dec_string ch, datarate_str dr, a]"
    using sl by (simp add: radio_uri_def split_on_sep split_on_no_sep)
  have m: "regex_match_uri ?u = Some (RadioMatch (dec_string n) (dec_string ch) (datarate_str dr) a)"
    using split assms(3,4) digits1_dec_string datarate_str_props [of dr]
    by (simp add: regex_match_uri_def radio_uri_def)
  have ne: "dec_string n \<noteq> ''*''" using dec_string_props [of n] by (auto simp: list_all_iff is_digit_def ord_def)
  show ?thesis
    using m ne stoi_dec_string [OF assms(1)] stoi_dec_string [OF assms(2)] stoul_hex_10 [OF assms(3,4)]
      datarate_str_props [of dr]
    by (simp add: connection_create_def)
qed

theorem radio_uri_roundtrip_witness:
  "connection_create (radio_uri (dec_string 0) (dec_string 80) (datarate_str Datarate_2MPS) ''E7E7E7E7E7'') False 0 =
     Inr (conn_default\<lparr>c_uri := ''radio://0/80/2M/E7E7E7E7E7'', c_devid := 0, c_channel := 80,
       c_datarate := Datarate_2MPS, c_address := 0xE7E7E7E7E7, c_useSafelink := False,
       c_safelinkInitialized := False, c_safelinkUp := False, c_safelinkDown := False\<rparr>)"
proof -
  have h: "(0::nat) \<le> INT_MAX" "(80::nat) \<le> INT_MAX" "length ''E7E7E7E7E7'' = 10" "list_all is_hex ''E7E7E7E7E7''"
    by (simp_all add: INT_MAX_def is_hex_def is_digit_def ord_def)
  show ?thesis using radio_uri_roundtrip [OF h, of Datarate_2MPS False 0]
    by (simp add: radio_uri_def dec_string.simps digit_char_def datarate_str_def digits_val_def hex_val_def
        is_digit_def ord_def)
qed

text \<open>C21: A constructed connection reports the URI it was built from, verbatim, through uri() and operator<<.\<close>

theorem create_keeps_uri:
  assumes "connection_create u sl k = Inr c"
  shows "connection_uri c = u \<and> connection_show c = ''Connection('' @ u @ '')''"
  using create_uri [OF assms] by (simp add: connection_uri_def connection_show_def)


theorem create_keeps_uri_witness:
  "connection_uri (conn_default\<lparr>c_uri := ''radio://0/80/2M/E7E7E7E7E7'', c_devid := 0, c_channel := 80,
       c_datarate := Datarate_2MPS, c_address := 0xE7E7E7E7E7, c_useSafelink := False,
       c_safelinkInitialized := False, c_safelinkUp := False, c_safelinkDown := False\<rparr>) = ''radio://0/80/2M/E7E7E7E7E7''"
proof -
  have h: "connection_create ''radio://0/80/2M/E7E7E7E7E7'' False 0 = Inr (conn_default\<lparr>c_uri := ''radio://0/80/2M/E7E7E7E7E7'', c_devid := 0, c_channel := 80,
       c_datarate := Datarate_2MPS, c_address := 0xE7E7E7E7E7, c_useSafelink := False,
       c_safelinkInitialized := False, c_safelinkUp := False, c_safelinkDown := False\<rparr>)"
    by (simp add: connection_create_def uri_eval)
  show ?thesis using create_keeps_uri [OF h] by blast
qed

text \<open>C5: For every connection built from a radio URI, crazyflieUSB_ is empty, so send and recv (which test !crazyflieUSB_) call through the null pointer; only the destructor takes the radio branch.\<close>

theorem radio_send_recv_null_deref:
  assumes "connection_create u sl k = Inr c" "take 8 u = ''radio://''"
  shows "connection_send p c = Inl NullDeref \<and> connection_recv b c = Inl NullDeref \<and> destructor_detaches c"
  using create_radio_no_usb [OF assms] by (simp add: connection_send_def connection_recv_def destructor_detaches_def)


theorem radio_send_recv_null_deref_witness:
  "connection_send empty_packet (conn_default\<lparr>c_uri := ''radio://0/80/2M/E7E7E7E7E7'', c_devid := 0, c_channel := 80,
       c_datarate := Datarate_2MPS, c_address := 0xE7E7E7E7E7, c_useSafelink := False,
       c_safelinkInitialized := False, c_safelinkUp := False, c_safelinkDown := False\<rparr>) = Inl NullDeref"
proof -
  have h: "connection_create ''radio://0/80/2M/E7E7E7E7E7'' False 0 = Inr (conn_default\<lparr>c_uri := ''radio://0/80/2M/E7E7E7E7E7'', c_devid := 0, c_channel := 80,
       c_datarate := Datarate_2MPS, c_address := 0xE7E7E7E7E7, c_useSafelink := False,
       c_safelinkInitialized := False, c_safelinkUp := False, c_safelinkDown := False\<rparr>)"
    "take 8 ''radio://0/80/2M/E7E7E7E7E7'' = ''radio://''"
    by (simp_all add: connection_create_def uri_eval)
  show ?thesis using radio_send_recv_null_deref [OF h, of empty_packet True] by blast
qed

text \<open>C22: For every connection built from a USB URI, send only pushes onto the send queue, which no radio thread drains; recv never reads the device: a blocking recv waits forever and a non-blocking one returns the empty packet; the destructor does not detach.\<close>

theorem usb_send_only_queues:
  assumes "connection_create u sl k = Inr c" "take 6 u = ''usb://''"
  shows "connection_send p c = Inr (enqueue_send p c) \<and> connection_recv True c = Inr Waits \<and>
         connection_recv False c = Inr (Got empty_packet c) \<and> \<not> destructor_detaches c"
proof -
  have "c_usb c \<noteq> None \<and> c_queue_recv c = []" by (rule create_usb_has_usb [OF assms])
  then show ?thesis
    by (simp add: connection_send_def connection_recv_def recv_queue_pop_def destructor_detaches_def)
qed


theorem usb_send_only_queues_witness:
  "connection_recv True (conn_default\<lparr>c_uri := ''usb://0'', c_devid := 0, c_usb := Some 0\<rparr>) = Inr Waits"
proof -
  have h: "connection_create ''usb://0'' False 1 = Inr (conn_default\<lparr>c_uri := ''usb://0'', c_devid := 0, c_usb := Some 0\<rparr>)" "take 6 ''usb://0'' = ''usb://''"
    by (simp_all add: connection_create_def uri_eval)
  show ?thesis using usb_send_only_queues [OF h, of empty_packet] by blast
qed

text \<open>C12: The constructor's error paths, for every URI: it raises "Invalid uri!" exactly when the regular expression does not match; it raises std::invalid_argument exactly for a radio URI whose address is the "*" the regular expression accepts, once index and channel are in range, so that address can never be opened; and a USB URI raises std::out_of_range exactly when its index exceeds INT_MAX or names no listed device.\<close>

theorem create_error_paths:
  "(connection_create u sl k = Inl InvalidUri \<longleftrightarrow> regex_match_uri u = None) \<and>
   (connection_create u sl k = Inl InvalidArgument \<longleftrightarrow>
      (\<exists>g3 g4 g5. regex_match_uri u = Some (RadioMatch g3 g4 g5 ''*'') \<and>
         (g3 = ''*'' \<or> digits_val 10 g3 \<le> INT_MAX) \<and> digits_val 10 g4 \<le> INT_MAX)) \<and>
   (\<forall>g. regex_match_uri u = Some (UsbMatch g) \<longrightarrow>
      (connection_create u sl k = Inl OutOfRange \<longleftrightarrow> INT_MAX < digits_val 10 g \<or> k \<le> digits_val 10 g))"
proof (intro conjI allI impI)
  show "connection_create u sl k = Inl InvalidUri \<longleftrightarrow> regex_match_uri u = None"
    using stoi_errors stoul_hex_not_uri
    by (auto simp: connection_create_def split: option.splits uri_match.splits sum.splits if_splits)
next
  show "connection_create u sl k = Inl InvalidArgument \<longleftrightarrow>
      (\<exists>g3 g4 g5. regex_match_uri u = Some (RadioMatch g3 g4 g5 ''*'') \<and>
         (g3 = ''*'' \<or> digits_val 10 g3 \<le> INT_MAX) \<and> digits_val 10 g4 \<le> INT_MAX)"
    using stoi_errors regex_radio_address [of u] stoul_hex_star stoul_hex_10
    by (auto simp: connection_create_def stoi_def Let_def split: option.splits uri_match.splits sum.splits if_splits)
next
  fix g assume "regex_match_uri u = Some (UsbMatch g)"
  then show "connection_create u sl k = Inl OutOfRange \<longleftrightarrow> INT_MAX < digits_val 10 g \<or> k \<le> digits_val 10 g"
    by (auto simp: connection_create_def stoi_def Let_def)
qed

theorem create_error_paths_witness:
  "regex_match_uri ''usb://2'' = Some (UsbMatch ''2'') \<and> connection_create ''usb://2'' False 2 = Inl OutOfRange \<and>
   connection_create ''radio://*/80/2M/*'' False 0 = Inl InvalidArgument"
proof -
  have m: "regex_match_uri ''usb://2'' = Some (UsbMatch ''2'')"
    "regex_match_uri ''radio://*/80/2M/*'' = Some (RadioMatch ''*'' ''80'' ''2M'' ''*'')"
    by (simp_all add: uri_eval)
  have v: "digits_val 10 ''2'' = 2" "digits_val 10 ''80'' = 80" by (simp_all add: uri_eval)
  show ?thesis
    using m v create_error_paths [of "''usb://2''" False 2] create_error_paths [of "''radio://*/80/2M/*''" False 0]
    by (auto simp: INT_MAX_def)
qed

text \<open>C23: The queue branch of send stamps the packet with enqueued_count, pushes it, increments the counter, and keeps the connection invariant.\<close>

theorem enqueue_send_keeps_inv:
  assumes "conn_inv c"
  shows "conn_inv (enqueue_send p c) \<and>
         mset (c_queue_send (enqueue_send p c)) =
           add_mset (p\<lparr>pk_seq := enqueued_count (c_stats c)\<rparr>) (mset (c_queue_send c)) \<and>
         enqueued_count (c_stats (enqueue_send p c)) = Suc (enqueued_count (c_stats c))"
  using assms
  by (auto simp: conn_inv_def enqueue_send_def pq_sorted_push list_all_iff)

theorem enqueue_send_keeps_inv_witness:
  "conn_inv (enqueue_send empty_packet conn_default)"
proof -
  have h: "conn_inv conn_default" by (rule conn_inv_default)
  show ?thesis using enqueue_send_keeps_inv [OF h, of empty_packet] by blast
qed

text \<open>C24: The queue branch of recv on a non-empty receive queue returns a greatest packet and removes exactly it, keeping the invariant.\<close>

theorem recv_pops_top:
  assumes "conn_inv c" "c_queue_recv c \<noteq> []"
  shows "\<exists>p c'. recv_queue_pop b c = Got p c' \<and> pq_is_top p (mset (c_queue_recv c)) \<and>
           mset (c_queue_recv c') = mset (c_queue_recv c) - {#p#} \<and> conn_inv c'"
proof -
  obtain p q where q: "c_queue_recv c = p # q" using assms(2) by (cases "c_queue_recv c") auto
  have "pq_sorted (p # q)" using assms(1) q by (simp add: conn_inv_def)
  then have "pq_is_top p (mset (c_queue_recv c))" using q by (auto simp: pq_is_top_def pq_sorted_Cons)
  moreover have "conn_inv (c\<lparr>c_queue_recv := q\<rparr>)"
    using assms(1) q by (auto simp: conn_inv_def pq_sorted_Cons)
  ultimately show ?thesis using q by (simp add: recv_queue_pop_def)
qed

theorem recv_pops_top_witness:
  "\<exists>p c'. recv_queue_pop True (conn_default\<lparr>c_queue_recv := [empty_packet],
       c_stats := stats_init\<lparr>receive_count := 1, ack_count := 1, sent_count := 1\<rparr>\<rparr>) = Got p c'"
proof -
  let ?c = "conn_default\<lparr>c_queue_recv := [empty_packet],
       c_stats := stats_init\<lparr>receive_count := 1, ack_count := 1, sent_count := 1\<rparr>\<rparr>"
  have h: "conn_inv ?c" "c_queue_recv ?c \<noteq> []"
    by (simp_all add: conn_inv_def conn_default_def stats_init_def empty_packet_def pq_sorted_def)
  show ?thesis using recv_pops_top [OF h, of True] by blast
qed

text \<open>C25: scan probes 3 x 125 = 375 URIs; channel 125, which the spec includes in the range, is never probed.\<close>

theorem scan_probe_count:
  "length (scan_uris a) = 375 \<and> (\<forall>dr. radio_uri ''*'' ''125'' dr (scan_address a) \<notin> set (scan_uris a))"
proof -
  have "length (scan_uris a) = 375" by (simp add: scan_uris_def scan_datarates_def length_concat)
  moreover have "radio_uri ''*'' ''125'' dr (scan_address a) \<notin> set (scan_uris a)" for dr
  proof
    assume "radio_uri ''*'' ''125'' dr (scan_address a) \<in> set (scan_uris a)"
    then obtain ch dr' where ch: "ch < 125" "dr' \<in> set scan_datarates"
      and eq: "radio_uri ''*'' (dec_string ch) dr' (scan_address a) = radio_uri ''*'' ''125'' dr (scan_address a)"
      by (auto simp: scan_uris_def)
    have "''125'' = dec_string ch" by (rule scan_uri_field [OF ch eq]) simp
    then have "digits_val 10 ''125'' = ch" using dec_string_props [of ch] by simp
    with ch(1) show False by (simp add: digits_val_def hex_val_def is_digit_def ord_def)
  qed
  ultimately show ?thesis by blast
qed

text \<open>C26: When no probe throws, scan returns usb://0 .. usb://n-1 followed by the probed radio URIs that answered, in probe order.\<close>

theorem scan_result_shape:
  assumes "\<forall>u \<in> set (scan_uris a). probe u = Inr (ok u)"
  shows "scan n a probe = Inr (map (\<lambda>i. ''usb://'' @ dec_string i) [0..<n] @ filter ok (scan_uris a))"
  using collect_probes_ok [OF assms] by (simp add: scan_def)

theorem scan_result_shape_witness:
  "scan 1 [] (\<lambda>u. Inr False) = Inr [''usb://0'']"
  using scan_result_shape [of "[]" "\<lambda>u. Inr False" "\<lambda>u. False" 1]
  by (simp add: dec_string.simps digit_char_def)

text \<open>C29: The probe race of scan: a probe decides as soon as sent_count >= 1, but the worker increments sent_count right after the transmission (CrazyradioThread.cpp lines 137, 153, 171, 180) and ack_count only later (line 187). For a fresh connection, the statistics a probe reads between the two increments already decide "no answer", whatever the acknowledgement, while at the end of the cycle they decide by the acknowledgement.\<close>

theorem scan_probe_race:
  assumes "c_stats c = stats_init"
  shows "probe_decide (c_stats (fst (select_send a c (reconfigure c r)))) = Some False \<and>
         probe_decide (c_stats (fst (con_cycle a c r))) = Some (a \<noteq> None)"
proof -
  have "sends_once c (fst (select_send a c (reconfigure c r)))" by (rule sends_once_select)
  then have "c_stats (fst (select_send a c (reconfigure c r))) = stats_init\<lparr>sent_count := 1\<rparr>"
    using assms by (simp add: sends_once_def stats_init_def)
  moreover have "sent_count (c_stats (fst (con_cycle a c r))) = 1"
    "ack_count (c_stats (fst (con_cycle a c r))) = (if a = None then 0 else 1)"
    using assms con_cycle_stats [of a c r] by (simp_all add: stats_init_def)
  ultimately show ?thesis by (simp add: probe_decide_def stats_init_def)
qed

theorem scan_probe_race_witness:
  "probe_decide (c_stats (fst (select_send (Some [0]) conn_default (reconfigure conn_default radio_init)))) = Some False \<and>
   probe_decide (c_stats (fst (con_cycle (Some [0]) conn_default radio_init))) = Some True"
  using scan_probe_race [of conn_default "Some [0]" radio_init] by (simp add: conn_default_def)

end
