(* ===== verification/Lifecycle.thy ===== *)
theory Lifecycle
  imports Connection
begin

text \<open>
  The radio thread's life and the callers that attach and detach
  connections (src/src/CrazyradioThread.cpp, lines 15-106), as an
  interleaving of atomic steps. Each critical section of the source is one
  step: the worker's snapshot (lines 92-105) and its cycle on one
  connection (lines 113-205); \<open>addConnection\<close> in two sections (insert
  under \<open>connections_mutex_\<close>, lines 31-36; start the thread under
  \<open>thread_mutex_\<close>, lines 38-44); \<open>removeConnection\<close> in the section that
  erases and computes \<open>endThread\<close> (lines 61-67) and, when the set became
  empty, the section that holds \<open>thread_mutex_\<close> across \<open>join\<close> (lines
  69-75). A connection is opened by the \<open>Connection\<close> constructor on a
  radio URI (\<open>connection_create\<close>), which attaches it; its destructor
  detaches it. The wait on \<open>connections_updated_cv_\<close> at line 66 has the
  predicate \<open>!connections_updated_\<close>, which the same section has just made
  true, so it never blocks: the erase step goes straight on.
\<close>

section \<open>State\<close>

text \<open>Where the caller that owns a connection is, in its constructor or destructor.\<close>

datatype cphase =
    Adding          \<comment> \<open>inserted, \<open>addConnection\<close> not yet past \<open>thread_mutex_\<close>\<close>
  | Attached        \<comment> \<open>\<open>addConnection\<close> returned\<close>
  | Removing bool   \<comment> \<open>erased; the flag is \<open>endThread\<close>\<close>
  | Joining         \<comment> \<open>holds \<open>thread_mutex_\<close>, \<open>thread_ending_\<close> set, inside \<open>join()\<close>\<close>
  | JoinFailed      \<comment> \<open>\<open>join()\<close> on a thread that is not joinable threw\<close>
  | Detached        \<comment> \<open>\<open>removeConnection\<close> returned\<close>

record lsys =
  ls_worker :: worker
  ls_conns :: "cid \<Rightarrow> conn_impl option"
  ls_pending :: "cid list"
  ls_phase :: "cid \<Rightarrow> cphase option"

definition lsys_init :: lsys where
  "lsys_init = \<lparr>ls_worker = worker_init, ls_conns = Map.empty, ls_pending = [], ls_phase = Map.empty\<rparr>"

text \<open>Whether some caller holds \<open>thread_mutex_\<close> across \<open>join()\<close>.\<close>

definition joining :: "lsys \<Rightarrow> bool" where
  "joining s \<longleftrightarrow> (\<exists>j. ls_phase s j = Some Joining)"

section \<open>Critical sections\<close>

text \<open>Lines 92-105: snapshot under the lock, then leave the loop if asked to.\<close>

definition worker_snapshot :: "lsys \<Rightarrow> lsys" where
  "worker_snapshot s =
     s\<lparr>ls_worker := (ls_worker s)\<lparr>w_updated := True,
          w_thread := (if w_thread_ending (ls_worker s) then Exited else Running)\<rparr>,
       ls_pending := (if w_thread_ending (ls_worker s) then []
                      else sorted_list_of_set (w_connections (ls_worker s)))\<rparr>"

text \<open>Lines 113-205 on the next connection of the snapshot, with acknowledgement \<open>a\<close>.\<close>

definition worker_cycle :: "ack_result \<Rightarrow> lsys \<Rightarrow> lsys" where
  "worker_cycle a s =
     (case ls_pending s of
        [] \<Rightarrow> s
      | i # is \<Rightarrow>
          (case ls_conns s i of
             None \<Rightarrow> s\<lparr>ls_pending := is\<rparr>
           | Some c \<Rightarrow>
               s\<lparr>ls_conns := (ls_conns s)(i \<mapsto> fst (con_cycle a c (w_radio (ls_worker s)))),
                 ls_worker := (ls_worker s)\<lparr>w_radio := snd (con_cycle a c (w_radio (ls_worker s)))\<rparr>,
                 ls_pending := is\<rparr>))"

text \<open>
  Lines 31-36: the constructor's \<open>addRadioConnection\<close> inserts the new
  connection \<open>c\<close> under handle \<open>i\<close>.
\<close>

definition add_insert :: "cid \<Rightarrow> conn_impl \<Rightarrow> lsys \<Rightarrow> lsys" where
  "add_insert i c s =
     s\<lparr>ls_conns := (ls_conns s)(i \<mapsto> c),
       ls_worker := (ls_worker s)\<lparr>w_connections := insert i (w_connections (ls_worker s))\<rparr>,
       ls_phase := (ls_phase s)(i \<mapsto> Adding)\<rparr>"

text \<open>Lines 38-44: start the thread unless \<open>thread_.joinable()\<close>.\<close>

definition add_start :: "cid \<Rightarrow> lsys \<Rightarrow> lsys" where
  "add_start i s =
     (if w_thread (ls_worker s) = NoThread
      then s\<lparr>ls_worker := (ls_worker s)\<lparr>w_thread := Running, w_radio := radio_init\<rparr>,
             ls_pending := [], ls_phase := (ls_phase s)(i \<mapsto> Attached)\<rparr>
      else s\<lparr>ls_phase := (ls_phase s)(i \<mapsto> Attached)\<rparr>)"

text \<open>Lines 61-67: clear \<open>connections_updated_\<close>, erase, compute \<open>endThread\<close>; the wait returns at once.\<close>

definition remove_erase :: "cid \<Rightarrow> lsys \<Rightarrow> lsys" where
  "remove_erase i s =
     s\<lparr>ls_worker := (ls_worker s)\<lparr>w_updated := False,
          w_connections := w_connections (ls_worker s) - {i}\<rparr>,
       ls_phase := (ls_phase s)(i \<mapsto> Removing (w_connections (ls_worker s) - {i} = {}))\<rparr>"

text \<open>Line 69 with \<open>endThread\<close> false: \<open>removeConnection\<close> returns.\<close>

definition remove_return :: "cid \<Rightarrow> lsys \<Rightarrow> lsys" where
  "remove_return i s = s\<lparr>ls_phase := (ls_phase s)(i \<mapsto> Detached)\<rparr>"

text \<open>Lines 70-71: take \<open>thread_mutex_\<close> and set \<open>thread_ending_\<close>.\<close>

definition remove_end :: "cid \<Rightarrow> lsys \<Rightarrow> lsys" where
  "remove_end i s =
     s\<lparr>ls_worker := (ls_worker s)\<lparr>w_thread_ending := True\<rparr>, ls_phase := (ls_phase s)(i \<mapsto> Joining)\<rparr>"

text \<open>Lines 72-74: \<open>join()\<close> returns once the thread has left its loop; reset.\<close>

definition remove_join :: "cid \<Rightarrow> lsys \<Rightarrow> lsys" where
  "remove_join i s =
     s\<lparr>ls_worker := (ls_worker s)\<lparr>w_thread := NoThread, w_thread_ending := False\<rparr>,
       ls_phase := (ls_phase s)(i \<mapsto> Detached)\<rparr>"

text \<open>Line 72 on a \<open>std::thread\<close> that is not joinable: \<open>join()\<close> throws \<open>std::system_error\<close>.\<close>

definition remove_join_fail :: "cid \<Rightarrow> lsys \<Rightarrow> lsys" where
  "remove_join_fail i s = s\<lparr>ls_phase := (ls_phase s)(i \<mapsto> JoinFailed)\<rparr>"

text \<open>
  Lines 128-139 and 141-168 of Connection.cpp, called by the owner of an
  attached connection: \<open>send\<close> or \<open>recv\<close> on the shared \<open>ConnectionImpl\<close>,
  whose new value the caller stores back when the call returns normally.
\<close>

definition app_update :: "cid \<Rightarrow> conn_impl \<Rightarrow> lsys \<Rightarrow> lsys" where
  "app_update i c s = s\<lparr>ls_conns := (ls_conns s)(i \<mapsto> c)\<rparr>"

section \<open>Steps\<close>

text \<open>
  Any caller or the worker may take the next step whose guard holds. The
  worker steps only while its thread runs; a caller of \<open>addConnection\<close> or
  of the ending part of \<open>removeConnection\<close> needs \<open>thread_mutex_\<close>, which a
  caller inside \<open>join()\<close> holds.
\<close>

inductive lstep :: "lsys \<Rightarrow> lsys \<Rightarrow> bool" where
  snapshot: "w_thread (ls_worker s) = Running \<Longrightarrow> ls_pending s = [] \<Longrightarrow> lstep s (worker_snapshot s)"
| cycle: "w_thread (ls_worker s) = Running \<Longrightarrow> ls_pending s \<noteq> [] \<Longrightarrow> lstep s (worker_cycle a s)"
| open_insert:
    "ls_phase s i = None \<Longrightarrow> connection_create u sl k = Inr c \<Longrightarrow> c_usb c = None \<Longrightarrow>
     lstep s (add_insert i c s)"
| open_start: "ls_phase s i = Some Adding \<Longrightarrow> \<not> joining s \<Longrightarrow> lstep s (add_start i s)"
| close_erase: "ls_phase s i = Some Attached \<Longrightarrow> lstep s (remove_erase i s)"
| close_return: "ls_phase s i = Some (Removing False) \<Longrightarrow> lstep s (remove_return i s)"
| close_end: "ls_phase s i = Some (Removing True) \<Longrightarrow> \<not> joining s \<Longrightarrow> lstep s (remove_end i s)"
| close_join:
    "ls_phase s i = Some Joining \<Longrightarrow> w_thread (ls_worker s) = Exited \<Longrightarrow> lstep s (remove_join i s)"
| close_join_fail:
    "ls_phase s i = Some Joining \<Longrightarrow> w_thread (ls_worker s) = NoThread \<Longrightarrow> lstep s (remove_join_fail i s)"

| app_send:
    "ls_phase s i = Some Attached \<Longrightarrow> ls_conns s i = Some c \<Longrightarrow> connection_send p c = Inr c' \<Longrightarrow>
     lstep s (app_update i c' s)"
| app_recv:
    "ls_phase s i = Some Attached \<Longrightarrow> ls_conns s i = Some c \<Longrightarrow>
     connection_recv b c = Inr (Got p c') \<Longrightarrow> lstep s (app_update i c' s)"

inductive reach :: "lsys \<Rightarrow> bool" where
  init: "reach lsys_init"
| step: "reach s \<Longrightarrow> lstep s t \<Longrightarrow> reach t"

section \<open>Invariants\<close>

text \<open>
  A radio connection as the system keeps it: the connection invariant, no
  USB device, an empty send queue (radio \<open>send\<close> never returns) and every
  packet the worker received still queued (radio \<open>recv\<close> never returns).
  \<open>owners\<close> are the callers that set \<open>thread_ending_\<close> and are inside
  or past \<open>join()\<close>. \<open>inv_thread\<close> relates the thread's state to them,
  \<open>inv_attached\<close> the worker's set \<open>connections_\<close> to the callers' phases,
  \<open>inv_conns\<close> says every stored connection is well formed.
\<close>

definition conn_ok :: "conn_impl \<Rightarrow> bool" where
  "conn_ok c \<longleftrightarrow> conn_inv c \<and> c_usb c = None \<and> c_queue_send c = [] \<and>
     length (c_queue_recv c) = receive_count (c_stats c)"

definition owners :: "(cid \<Rightarrow> cphase option) \<Rightarrow> cid set" where
  "owners m = {j. m j = Some Joining \<or> m j = Some JoinFailed}"

definition inv_thread :: "lsys \<Rightarrow> bool" where
  "inv_thread s \<longleftrightarrow>
     (w_thread (ls_worker s) = Exited \<longrightarrow> w_thread_ending (ls_worker s)) \<and>
     (w_thread_ending (ls_worker s) \<longrightarrow> owners (ls_phase s) \<noteq> {}) \<and>
     (\<forall>i. ls_phase s i = Some Joining \<longrightarrow> w_thread_ending (ls_worker s)) \<and>
     (\<forall>i j. ls_phase s i = Some Joining \<longrightarrow> ls_phase s j = Some Joining \<longrightarrow> i = j) \<and>
     (w_thread (ls_worker s) \<noteq> Running \<longrightarrow> ls_pending s = [])"

definition inv_attached :: "lsys \<Rightarrow> bool" where
  "inv_attached s \<longleftrightarrow>
     w_connections (ls_worker s) = {i. ls_phase s i = Some Adding \<or> ls_phase s i = Some Attached} \<and>
     dom (ls_conns s) = dom (ls_phase s) \<and> finite (dom (ls_phase s)) \<and>
     set (ls_pending s) \<subseteq> dom (ls_conns s)"

definition inv_conns :: "lsys \<Rightarrow> bool" where
  "inv_conns s \<longleftrightarrow> (\<forall>c \<in> ran (ls_conns s). conn_ok c)"

definition lsys_inv :: "lsys \<Rightarrow> bool" where
  "lsys_inv s \<longleftrightarrow> inv_thread s \<and> inv_attached s \<and> inv_conns s"

text \<open>
  \<open>enders\<close> are the callers that will end and join the thread: those whose
  erase left the set empty, and the one inside \<open>join()\<close>. A thread that
  exists has an attached connection or such a caller (\<open>inv_owner\<close>).
\<close>

definition enders :: "(cid \<Rightarrow> cphase option) \<Rightarrow> cid set" where
  "enders m = {j. m j = Some (Removing True) \<or> m j = Some Joining}"

definition inv_owner :: "lsys \<Rightarrow> bool" where
  "inv_owner s \<longleftrightarrow>
     (w_thread (ls_worker s) \<noteq> NoThread \<longrightarrow> w_connections (ls_worker s) \<noteq> {} \<or> enders (ls_phase s) \<noteq> {})"

text \<open>The connection \<open>radio://0/80/2M/E7E7E7E7E7\<close> builds (scenario S1), used in the traces below.\<close>

definition lc_demo :: conn_impl where
  "lc_demo = conn_default\<lparr>c_uri := ''radio://0/80/2M/E7E7E7E7E7'', c_devid := 0, c_channel := 80,
       c_datarate := Datarate_2MPS, c_address := 0xE7E7E7E7E7, c_useSafelink := False,
       c_safelinkInitialized := False, c_safelinkUp := False, c_safelinkDown := False\<rparr>"

section \<open>Lemmas\<close>

lemma conn_ok_cycle: "conn_ok c \<Longrightarrow> conn_ok (fst (con_cycle a c r))"
proof -
  assume ok: "conn_ok c"
  define c' where "c' = fst (select_send a c (reconfigure c r))"
  have s: "sends_once c c'" by (simp add: c'_def sends_once_select)
  have eq: "fst (con_cycle a c r) = deliver_ack a c'" by (simp add: c'_def fst_con_cycle)
  have "conn_inv (fst (con_cycle a c r))" using ok by (simp add: conn_ok_def conn_inv_con_cycle)
  moreover have "c_usb (fst (con_cycle a c r)) = None" using ok by (simp add: conn_ok_def con_cycle_consts)
  moreover have "c_queue_send c' = []" using ok s by (auto simp: conn_ok_def sends_once_def)
  moreover have "length (c_queue_recv c') = receive_count (c_stats c')" using ok s by (simp add: conn_ok_def sends_once_def)
  ultimately show ?thesis unfolding eq
    by (auto simp: conn_ok_def deliver_ack_def count_ack_def Let_def split: option.split)
qed

lemma create_conn_inv: "connection_create u sl k = Inr c \<Longrightarrow> conn_inv c \<and> c_queue_send c = [] \<and> c_queue_recv c = [] \<and> c_stats c = stats_init"
  by (auto simp: connection_create_def conn_default_def conn_inv_def stats_init_def
           split: option.splits uri_match.splits sum.splits if_splits)

lemma conn_ok_create: "connection_create u sl k = Inr c \<Longrightarrow> c_usb c = None \<Longrightarrow> conn_ok c"
  using create_conn_inv [of u sl k c] by (simp add: conn_ok_def stats_init_def)

lemma mem_owners [simp]: "i \<in> owners m \<longleftrightarrow> m i = Some Joining \<or> m i = Some JoinFailed"
  by (simp add: owners_def)

lemma owners_upd [simp]:
  "owners (m(i \<mapsto> x)) = (if x = Joining \<or> x = JoinFailed then insert i (owners m) else owners m - {i})"
  by (auto simp: owners_def)

lemma diff_single_absorb [simp]: "i \<notin> A \<Longrightarrow> A - {i} = A"
  by auto

lemma ran_upd_ok: "\<forall>c \<in> ran m. P c \<Longrightarrow> P c' \<Longrightarrow> \<forall>c \<in> ran (m(i \<mapsto> c')). P c"
  by (auto simp: ran_def)

lemma worker_cycle_cases:
  assumes "ls_pending s = i # is"
  shows "worker_cycle a s =
    (case ls_conns s i of None \<Rightarrow> s\<lparr>ls_pending := is\<rparr>
     | Some c \<Rightarrow> s\<lparr>ls_conns := (ls_conns s)(i \<mapsto> fst (con_cycle a c (w_radio (ls_worker s)))),
                 ls_worker := (ls_worker s)\<lparr>w_radio := snd (con_cycle a c (w_radio (ls_worker s)))\<rparr>,
                 ls_pending := is\<rparr>)"
  using assms by (simp add: worker_cycle_def)

lemma worker_cycle_fields [simp]:
  "ls_phase (worker_cycle a s) = ls_phase s"
  "w_thread (ls_worker (worker_cycle a s)) = w_thread (ls_worker s)"
  "w_thread_ending (ls_worker (worker_cycle a s)) = w_thread_ending (ls_worker s)"
  "w_connections (ls_worker (worker_cycle a s)) = w_connections (ls_worker s)"
  "w_updated (ls_worker (worker_cycle a s)) = w_updated (ls_worker s)"
  "dom (ls_conns (worker_cycle a s)) = dom (ls_conns s)"
  "set (ls_pending (worker_cycle a s)) \<subseteq> set (ls_pending s)"
  by (auto simp: worker_cycle_def split: list.split option.split)

lemma lstep_inv_thread: "lstep s t \<Longrightarrow> inv_thread s \<Longrightarrow> inv_thread t"
proof (induction rule: lstep.induct)
  case (snapshot s)
  then show ?case by (auto simp: inv_thread_def worker_snapshot_def)
next
  case (cycle s a)
  then show ?case unfolding inv_thread_def by auto
next
  case (open_insert s i u sl k c)
  then show ?case by (auto simp: inv_thread_def add_insert_def)
next
  case (open_start s i)
  then show ?case by (auto simp: inv_thread_def joining_def add_start_def)
next
  case (close_erase s i)
  then show ?case by (auto simp: inv_thread_def remove_erase_def)
next
  case (close_return s i)
  then show ?case by (auto simp: inv_thread_def remove_return_def)
next
  case (close_end s i)
  then show ?case by (auto simp: inv_thread_def joining_def remove_end_def)
next
  case (close_join s i)
  then show ?case by (auto simp: inv_thread_def remove_join_def)
next
  case (close_join_fail s i)
  then show ?case by (auto simp: inv_thread_def remove_join_fail_def)
qed (simp_all add: inv_thread_def app_update_def)

lemma inv_attached_finite: "inv_attached s \<Longrightarrow> finite (w_connections (ls_worker s))"
  unfolding inv_attached_def by (metis (mono_tags, lifting) domIff finite_subset mem_Collect_eq option.distinct(1) subsetI)

lemma lstep_inv_attached: "lstep s t \<Longrightarrow> inv_attached s \<Longrightarrow> inv_attached t"
proof (induction rule: lstep.induct)
  case (snapshot s)
  have "finite (w_connections (ls_worker s))" using snapshot.prems by (rule inv_attached_finite)
  moreover have "w_connections (ls_worker s) \<subseteq> dom (ls_conns s)"
    using snapshot.prems by (auto simp: inv_attached_def)
  ultimately show ?case using snapshot.prems by (auto simp: inv_attached_def worker_snapshot_def)
next
  case (cycle s a)
  have "set (ls_pending (worker_cycle a s)) \<subseteq> dom (ls_conns s)"
    using worker_cycle_fields(7) [of a s] cycle.prems unfolding inv_attached_def by blast
  then show ?case using cycle.prems unfolding inv_attached_def by simp
next
  case (open_insert s i u sl k c)
  then show ?case by (auto simp: inv_attached_def add_insert_def)
next
  case (open_start s i)
  then show ?case by (auto simp: inv_attached_def add_start_def)
next
  case (close_erase s i)
  then show ?case by (auto simp: inv_attached_def remove_erase_def)
next
  case (close_return s i)
  then show ?case by (auto simp: inv_attached_def remove_return_def)
next
  case (close_end s i)
  then show ?case by (auto simp: inv_attached_def remove_end_def)
next
  case (close_join s i)
  then show ?case by (auto simp: inv_attached_def remove_join_def)
next
  case (close_join_fail s i)
  then show ?case by (auto simp: inv_attached_def remove_join_fail_def)
qed (auto simp: inv_attached_def app_update_def)

lemma inv_conns_upd: "inv_conns s \<Longrightarrow> conn_ok c \<Longrightarrow> \<forall>x \<in> ran ((ls_conns s)(i \<mapsto> c)). conn_ok x"
  unfolding inv_conns_def by (rule ran_upd_ok)

lemma inv_conns_cycle: "inv_conns s \<Longrightarrow> inv_conns (worker_cycle a s)"
proof (cases "ls_pending s")
  case Nil
  assume "inv_conns s"
  with Nil show ?thesis by (simp add: worker_cycle_def)
next
  case (Cons i "is")
  assume inv: "inv_conns s"
  show ?thesis
  proof (cases "ls_conns s i")
    case None
    with Cons inv show ?thesis by (simp add: worker_cycle_def inv_conns_def)
  next
    case (Some c)
    have "conn_ok c" using inv Some by (auto simp: inv_conns_def intro: ranI)
    then have "conn_ok (fst (con_cycle a c (w_radio (ls_worker s))))" by (rule conn_ok_cycle)
    with inv have "\<forall>x \<in> ran ((ls_conns s)(i \<mapsto> fst (con_cycle a c (w_radio (ls_worker s))))). conn_ok x"
      by (rule inv_conns_upd)
    with Cons Some show ?thesis by (simp add: worker_cycle_def inv_conns_def)
  qed
qed

lemma lstep_inv_conns: "lstep s t \<Longrightarrow> inv_conns s \<Longrightarrow> inv_conns t"
proof (induction rule: lstep.induct)
  case (cycle s a)
  from cycle.prems show ?case by (rule inv_conns_cycle)
next
  case (open_insert s i u sl k c)
  have "conn_ok c" using open_insert.hyps(2,3) by (rule conn_ok_create)
  with open_insert.prems have "\<forall>x \<in> ran ((ls_conns s)(i \<mapsto> c)). conn_ok x" by (rule inv_conns_upd)
  then show ?case by (simp add: inv_conns_def add_insert_def)
next
  case (app_send s i c p c')
  then have "conn_ok c" by (auto simp: inv_conns_def intro: ranI)
  with app_send.hyps(3) show ?case by (simp add: conn_ok_def connection_send_def)
next
  case (app_recv s i c b p c')
  then have "conn_ok c" by (auto simp: inv_conns_def intro: ranI)
  with app_recv.hyps(3) show ?case by (simp add: conn_ok_def connection_recv_def)
qed (simp_all add: inv_conns_def worker_snapshot_def add_start_def remove_erase_def remove_return_def
       remove_end_def remove_join_def remove_join_fail_def)

lemma lsys_inv_init: "lsys_inv lsys_init"
  by (simp add: lsys_inv_def inv_thread_def inv_attached_def inv_conns_def lsys_init_def worker_init_def)

lemma reach_inv: "reach s \<Longrightarrow> lsys_inv s"
proof (induction rule: reach.induct)
  case init
  show ?case by (rule lsys_inv_init)
next
  case (step s t)
  then show ?case using lstep_inv_thread lstep_inv_attached lstep_inv_conns by (simp add: lsys_inv_def)
qed

lemma lc_demo_create: "connection_create ''radio://0/80/2M/E7E7E7E7E7'' False 0 = Inr lc_demo"
  by (simp add: connection_create_def uri_eval lc_demo_def)

lemma lc_demo_usb [simp]: "c_usb lc_demo = None"
  by (simp add: lc_demo_def conn_default_def)

lemma transformer_fields [simp]:
  "ls_phase (add_insert i c s) = (ls_phase s)(i \<mapsto> Adding)"
  "ls_conns (add_insert i c s) = (ls_conns s)(i \<mapsto> c)"
  "ls_pending (add_insert i c s) = ls_pending s"
  "ls_worker (add_insert i c s) = (ls_worker s)\<lparr>w_connections := insert i (w_connections (ls_worker s))\<rparr>"
  "ls_phase (add_start i s) = (ls_phase s)(i \<mapsto> Attached)"
  "ls_conns (add_start i s) = ls_conns s"
  "ls_phase (remove_erase i s) = (ls_phase s)(i \<mapsto> Removing (w_connections (ls_worker s) - {i} = {}))"
  "ls_conns (remove_erase i s) = ls_conns s"
  "ls_pending (remove_erase i s) = ls_pending s"
  "ls_worker (remove_erase i s) = (ls_worker s)\<lparr>w_updated := False, w_connections := w_connections (ls_worker s) - {i}\<rparr>"
  "ls_phase (remove_return i s) = (ls_phase s)(i \<mapsto> Detached)"
  "ls_conns (remove_return i s) = ls_conns s"
  "ls_pending (remove_return i s) = ls_pending s"
  "ls_worker (remove_return i s) = ls_worker s"
  "ls_phase (remove_end i s) = (ls_phase s)(i \<mapsto> Joining)"
  "ls_conns (remove_end i s) = ls_conns s"
  "ls_pending (remove_end i s) = ls_pending s"
  "ls_worker (remove_end i s) = (ls_worker s)\<lparr>w_thread_ending := True\<rparr>"
  "ls_phase (remove_join i s) = (ls_phase s)(i \<mapsto> Detached)"
  "ls_conns (remove_join i s) = ls_conns s"
  "ls_pending (remove_join i s) = ls_pending s"
  "ls_worker (remove_join i s) = (ls_worker s)\<lparr>w_thread := NoThread, w_thread_ending := False\<rparr>"
  "ls_phase (remove_join_fail i s) = (ls_phase s)(i \<mapsto> JoinFailed)"
  "ls_worker (remove_join_fail i s) = ls_worker s"
  "ls_phase (worker_snapshot s) = ls_phase s"
  "ls_conns (worker_snapshot s) = ls_conns s"
  by (simp_all add: add_insert_def add_start_def remove_erase_def remove_return_def remove_end_def
      remove_join_def remove_join_fail_def worker_snapshot_def)

lemma add_start_worker [simp]:
  "ls_worker (add_start i s) = (if w_thread (ls_worker s) = NoThread
     then (ls_worker s)\<lparr>w_thread := Running, w_radio := radio_init\<rparr> else ls_worker s)"
  "ls_pending (add_start i s) = (if w_thread (ls_worker s) = NoThread then [] else ls_pending s)"
  by (simp_all add: add_start_def)

lemma snapshot_worker [simp]:
  "ls_worker (worker_snapshot s) = (ls_worker s)\<lparr>w_updated := True,
     w_thread := (if w_thread_ending (ls_worker s) then Exited else Running)\<rparr>"
  "ls_pending (worker_snapshot s) = (if w_thread_ending (ls_worker s) then []
     else sorted_list_of_set (w_connections (ls_worker s)))"
  by (simp_all add: worker_snapshot_def)

lemma worker_cycle_pending [simp]: "ls_pending (worker_cycle a s) = tl (ls_pending s)"
  by (simp add: worker_cycle_def split: list.split option.split)

lemma lsys_init_fields [simp]:
  "ls_phase lsys_init = Map.empty" "ls_conns lsys_init = Map.empty" "ls_pending lsys_init = []"
  "ls_worker lsys_init = worker_init"
  by (simp_all add: lsys_init_def)

lemma reach_rules:
  "w_thread (ls_worker s) = Running \<Longrightarrow> ls_pending s = [] \<Longrightarrow> reach s \<Longrightarrow> reach (worker_snapshot s)"
  "w_thread (ls_worker s) = Running \<Longrightarrow> ls_pending s \<noteq> [] \<Longrightarrow> reach s \<Longrightarrow> reach (worker_cycle a s)"
  "ls_phase s i = None \<Longrightarrow> connection_create u sl k = Inr c \<Longrightarrow> c_usb c = None \<Longrightarrow> reach s \<Longrightarrow>
   reach (add_insert i c s)"
  "ls_phase s i = Some Adding \<Longrightarrow> \<not> joining s \<Longrightarrow> reach s \<Longrightarrow> reach (add_start i s)"
  "ls_phase s i = Some Attached \<Longrightarrow> reach s \<Longrightarrow> reach (remove_erase i s)"
  "ls_phase s i = Some (Removing False) \<Longrightarrow> reach s \<Longrightarrow> reach (remove_return i s)"
  "ls_phase s i = Some (Removing True) \<Longrightarrow> \<not> joining s \<Longrightarrow> reach s \<Longrightarrow> reach (remove_end i s)"
  "ls_phase s i = Some Joining \<Longrightarrow> w_thread (ls_worker s) = Exited \<Longrightarrow> reach s \<Longrightarrow> reach (remove_join i s)"
  "ls_phase s i = Some Joining \<Longrightarrow> w_thread (ls_worker s) = NoThread \<Longrightarrow> reach s \<Longrightarrow>
   reach (remove_join_fail i s)"
  by (auto intro: reach.step lstep.intros)

lemma sorted_list_01: "sorted_list_of_set {0, Suc 0} = [0, Suc 0]"
  by (simp add: insert_commute)

lemma worker_cycle_head:
  "ls_pending s = i # is \<Longrightarrow> ls_conns s i = Some c \<Longrightarrow>
   ls_conns (worker_cycle a s) i = Some (fst (con_cycle a c (w_radio (ls_worker s)))) \<and>
   w_radio (ls_worker (worker_cycle a s)) = snd (con_cycle a c (w_radio (ls_worker s)))"
  by (simp add: worker_cycle_def)

lemma worker_exit_steps:
  "w_thread (ls_worker s) = Running \<Longrightarrow> w_thread_ending (ls_worker s) \<Longrightarrow>
   \<exists>t. (lstep ^^ Suc (length (ls_pending s))) s t \<and> w_thread (ls_worker t) = Exited \<and> ls_phase t = ls_phase s"
proof (induction "ls_pending s" arbitrary: s)
  case Nil
  have st: "lstep s (worker_snapshot s)" using Nil by (intro lstep.snapshot) simp_all
  have "(lstep ^^ Suc (length (ls_pending s))) s (worker_snapshot s)"
    unfolding Nil.hyps [symmetric] list.size by (rule relpowp_Suc_I2 [where P = lstep, OF st]) simp
  moreover have "w_thread (ls_worker (worker_snapshot s)) = Exited" "ls_phase (worker_snapshot s) = ls_phase s"
    using Nil.prems by simp_all
  ultimately show ?case by blast
next
  case (Cons i "is")
  have st: "lstep s (worker_cycle None s)" using Cons.prems Cons.hyps(2) [symmetric]
    by (intro lstep.cycle) simp_all
  have "is = ls_pending (worker_cycle None s)" using Cons.hyps(2) [symmetric] by simp
  then obtain t where t: "(lstep ^^ Suc (length is)) (worker_cycle None s) t"
      "w_thread (ls_worker t) = Exited" "ls_phase t = ls_phase s"
    using Cons.hyps(1) [of "worker_cycle None s"] Cons.prems by auto
  have "(lstep ^^ Suc (Suc (length is))) s t" using st t(1) by (rule relpowp_Suc_I2)
  then show ?case using t(2,3) Cons.hyps(2) [symmetric] by auto
qed

lemma mem_enders [simp]: "i \<in> enders m \<longleftrightarrow> m i = Some (Removing True) \<or> m i = Some Joining"
  by (simp add: enders_def)

lemma enders_upd [simp]:
  "enders (m(i \<mapsto> x)) = (if x = Removing True \<or> x = Joining then insert i (enders m) else enders m - {i})"
  by (auto simp: enders_def)

lemma lstep_inv_owner: "lstep s t \<Longrightarrow> lsys_inv s \<Longrightarrow> inv_owner s \<Longrightarrow> inv_owner t"
proof (induction rule: lstep.induct)
  case (snapshot s)
  then show ?case by (simp add: inv_owner_def)
next
  case (cycle s a)
  then show ?case by (simp add: inv_owner_def)
next
  case (open_insert s i u sl k c)
  then show ?case by (simp add: inv_owner_def)
next
  case (open_start s i)
  then have "i \<in> w_connections (ls_worker s)" by (simp add: lsys_inv_def inv_attached_def)
  with open_start show ?case by (auto simp: inv_owner_def)
next
  case (close_erase s i)
  then show ?case by (auto simp: inv_owner_def)
next
  case (close_return s i)
  then show ?case by (simp add: inv_owner_def)
next
  case (close_end s i)
  then show ?case by (simp add: inv_owner_def)
next
  case (close_join s i)
  then show ?case by (simp add: inv_owner_def)
next
  case (close_join_fail s i)
  then show ?case by (simp add: inv_owner_def)
qed (simp_all add: inv_owner_def app_update_def)

lemma reach_inv_owner: "reach s \<Longrightarrow> inv_owner s"
proof (induction rule: reach.induct)
  case init
  show ?case by (simp add: inv_owner_def worker_init_def)
next
  case (step s t)
  then show ?case using lstep_inv_owner reach_inv by blast
qed

section \<open>Properties\<close>

text \<open>C6: In every reachable state of the interleaving, the worker's set \<open>connections_\<close> is exactly the set of connections whose owner is inside or past \<open>addConnection\<close>; at most one caller is inside \<open>join()\<close>, and \<open>thread_ending_\<close> is set while it is; an exited thread was asked to end; a thread that does not run has no snapshot left to cycle over; and every connection of a snapshot is still stored.\<close>

theorem lifecycle_invariant:
  assumes "reach s"
  shows "w_connections (ls_worker s) = {i. ls_phase s i = Some Adding \<or> ls_phase s i = Some Attached} \<and>
         (\<forall>i j. ls_phase s i = Some Joining \<longrightarrow> ls_phase s j = Some Joining \<longrightarrow> i = j) \<and>
         (\<forall>i. ls_phase s i = Some Joining \<longrightarrow> w_thread_ending (ls_worker s)) \<and>
         (w_thread (ls_worker s) = Exited \<longrightarrow> w_thread_ending (ls_worker s)) \<and>
         (w_thread (ls_worker s) \<noteq> Running \<longrightarrow> ls_pending s = []) \<and>
         set (ls_pending s) \<subseteq> dom (ls_conns s)"
  using reach_inv [OF assms] unfolding lsys_inv_def inv_thread_def inv_attached_def by blast

theorem lifecycle_invariant_witness:
  "reach lsys_init \<and> w_connections (ls_worker lsys_init) = {} \<and> ls_pending lsys_init = []"
  using lifecycle_invariant [OF reach.init] reach.init by (simp add: worker_init_def)

text \<open>C27: Because radio \<open>send\<close> and \<open>recv\<close> go through the null pointer, in every reachable state each stored radio connection has an empty send queue, still holds every packet the worker received (the receive queue has receive_count entries), and a further send or recv on it fails.\<close>

theorem radio_conns_frozen:
  assumes "reach s" "ls_conns s i = Some c"
  shows "conn_inv c \<and> c_queue_send c = [] \<and> length (c_queue_recv c) = receive_count (c_stats c) \<and>
         connection_send p c = Inl NullDeref \<and> connection_recv b c = Inl NullDeref"
proof -
  have "conn_ok c" using reach_inv [OF assms(1)] assms(2)
    by (auto simp: lsys_inv_def inv_conns_def intro: ranI)
  then show ?thesis by (simp add: conn_ok_def connection_send_def connection_recv_def)
qed

theorem radio_conns_frozen_witness:
  "reach (add_insert 0 lc_demo lsys_init) \<and> ls_conns (add_insert 0 lc_demo lsys_init) 0 = Some lc_demo \<and>
   connection_send empty_packet lc_demo = Inl NullDeref"
proof -
  have r: "reach (add_insert 0 lc_demo lsys_init)"
    by (rule reach_rules reach.init lc_demo_create; simp?)+
  have "ls_conns (add_insert 0 lc_demo lsys_init) 0 = Some lc_demo" by simp
  with radio_conns_frozen [OF r this, of empty_packet True] r show ?thesis by simp
qed

text \<open>C7: removeConnection does not wait for the worker: its wait on connections_updated_cv_ has the predicate !connections_updated_, which the same critical section has just made true. With connections 0 and 1 attached and a snapshot taken, connection 0 can be detached and its destructor return, and the worker's next cycle still transmits a ping for connection 0 and increments its sent_count.\<close>

theorem detach_not_synchronous:
  "let s = remove_return 0 (remove_erase 0 (worker_snapshot (add_start 1 (add_insert 1 lc_demo
             (add_start 0 (add_insert 0 lc_demo lsys_init))))));
       t = worker_cycle None s
   in reach s \<and> lstep s t \<and> ls_phase s 0 = Some Detached \<and> ls_conns s 0 = Some lc_demo \<and>
      ls_conns t 0 = Some (count_sent lc_demo) \<and>
      sent_frames (r_log (w_radio (ls_worker t))) =
        sent_frames (r_log (w_radio (ls_worker s))) @ [next_frame lc_demo]"
proof -
  define s where "s = remove_return 0 (remove_erase 0 (worker_snapshot (add_start 1 (add_insert 1 lc_demo
             (add_start 0 (add_insert 0 lc_demo lsys_init))))))"
  have r: "reach s" unfolding s_def
    by (rule reach_rules reach.init lc_demo_create; (simp add: joining_def worker_init_def)?)+
  have p: "ls_pending s = [0, 1]" "w_thread (ls_worker s) = Running"
    by (simp_all add: s_def worker_init_def sorted_list_01)
  have c: "ls_conns s 0 = Some lc_demo" "ls_phase s 0 = Some Detached" by (simp_all add: s_def)
  have "lstep s (worker_cycle None s)" using p by (intro lstep.cycle) simp_all
  moreover have "ls_conns (worker_cycle None s) 0 = Some (count_sent lc_demo) \<and>
      sent_frames (r_log (w_radio (ls_worker (worker_cycle None s)))) =
        sent_frames (r_log (w_radio (ls_worker s))) @ [next_frame lc_demo]"
    using worker_cycle_head [OF p(1) c(1), of None] by (simp add: con_cycle_no_ack con_cycle_frame)
  ultimately show ?thesis using r c unfolding s_def Let_def by simp
qed

text \<open>C10: Race between removeConnection and addConnection: when the last connection 0 is erased (endThread true) and connection 1 is added before the remover takes thread_mutex_, addConnection sees a joinable thread and starts none; the remover then ends and joins the thread. Connection 1 is left attached with no radio thread.\<close>

theorem remove_add_race_orphans:
  "let s = remove_join 0 (worker_snapshot (remove_end 0 (add_start 1 (add_insert 1 lc_demo
             (remove_erase 0 (add_start 0 (add_insert 0 lc_demo lsys_init)))))))
   in reach s \<and> ls_phase s 1 = Some Attached \<and> w_connections (ls_worker s) = {1} \<and>
      w_thread (ls_worker s) = NoThread"
  unfolding Let_def
  by (intro conjI, (rule reach_rules reach.init lc_demo_create; (simp add: joining_def worker_init_def)?)+)
     (simp_all add: worker_init_def)

text \<open>C28: The thread starts only in addConnection: every step after which the thread runs but before which it did not is the start step of a caller still in addConnection. So the orphaned connection of the race is served only once another connection is opened.\<close>

theorem thread_starts_only_on_add:
  assumes "lstep s t" "w_thread (ls_worker s) \<noteq> Running" "w_thread (ls_worker t) = Running"
  shows "\<exists>i. ls_phase s i = Some Adding \<and> t = add_start i s"
  using assms
  by (cases rule: lstep.cases)
     (auto simp: worker_cycle_def add_start_def app_update_def split: list.splits option.splits if_splits)

theorem thread_starts_only_on_add_witness:
  "\<exists>i. ls_phase (add_insert 0 lc_demo lsys_init) i = Some Adding \<and>
       add_start 0 (add_insert 0 lc_demo lsys_init) = add_start i (add_insert 0 lc_demo lsys_init)"
proof -
  have "lstep (add_insert 0 lc_demo lsys_init) (add_start 0 (add_insert 0 lc_demo lsys_init))"
    by (rule lstep.open_start) (simp_all add: joining_def)
  then show ?thesis using thread_starts_only_on_add by (simp add: worker_init_def)
qed

text \<open>C11: Two removals can both compute endThread: connection 0 is erased leaving the set empty, connection 1 is added and erased again, and both callers go on to end the thread. The first joins it and resets thread_; the second then calls join() on a thread that is not joinable, which throws std::system_error inside the destructor.\<close>

theorem double_join_fails:
  "let s = remove_join_fail 1 (remove_end 1 (remove_join 0 (worker_snapshot (remove_end 0
             (remove_erase 1 (add_start 1 (add_insert 1 lc_demo
             (remove_erase 0 (add_start 0 (add_insert 0 lc_demo lsys_init))))))))))
   in reach s \<and> ls_phase s 1 = Some JoinFailed"
  unfolding Let_def
  by (intro conjI, (rule reach_rules reach.init lc_demo_create; (simp add: joining_def worker_init_def insert_Diff_if)?)+)
     simp_all

text \<open>C30: Scenario S6 in general: in every reachable state in which no caller is inside addConnection or removeConnection (every connection is detached or was never opened), the thread has been joined and reset, thread_ending_ is clear, the set is empty and no snapshot is pending, so the next addConnection starts a fresh thread.\<close>

theorem quiescent_thread_reset:
  assumes "reach s" "\<forall>i. ls_phase s i = None \<or> ls_phase s i = Some Detached"
  shows "w_thread (ls_worker s) = NoThread \<and> \<not> w_thread_ending (ls_worker s) \<and>
         w_connections (ls_worker s) = {} \<and> ls_pending s = []"
proof -
  have i: "lsys_inv s" "inv_owner s" using reach_inv [OF assms(1)] reach_inv_owner [OF assms(1)] by simp_all
  have q: "ls_phase s j = None \<or> ls_phase s j = Some Detached" for j using assms(2) by blast
  have e: "w_connections (ls_worker s) = {}"
  proof (rule equals0I)
    fix j assume "j \<in> w_connections (ls_worker s)"
    then have "ls_phase s j = Some Adding \<or> ls_phase s j = Some Attached"
      using i(1) by (simp add: lsys_inv_def inv_attached_def)
    with q [of j] show False by auto
  qed
  have "enders (ls_phase s) = {}"
  proof (rule equals0I)
    fix j assume "j \<in> enders (ls_phase s)"
    with q [of j] show False by auto
  qed
  then have n: "w_thread (ls_worker s) = NoThread" using i(2) e by (simp add: inv_owner_def)
  have "owners (ls_phase s) = {}"
  proof (rule equals0I)
    fix j assume "j \<in> owners (ls_phase s)"
    with q [of j] show False by auto
  qed
  then have "\<not> w_thread_ending (ls_worker s)" using i(1) by (simp add: lsys_inv_def inv_thread_def)
  moreover have "ls_pending s = []" using i(1) n by (simp add: lsys_inv_def inv_thread_def)
  ultimately show ?thesis using e n by simp
qed

theorem quiescent_thread_reset_witness:
  "let s2 = add_start 0 (add_insert 0 lc_demo lsys_init);
       s = remove_join 1 (worker_snapshot (remove_end 1 (remove_erase 1 (remove_return 0
             (remove_erase 0 (add_start 1 (add_insert 1 lc_demo s2)))))))
   in reach s \<and> w_thread (ls_worker s2) = Running \<and>
      (\<forall>i. ls_phase s i = None \<or> ls_phase s i = Some Detached) \<and> w_thread (ls_worker s) = NoThread"
proof -
  define s2 where "s2 = add_start 0 (add_insert 0 lc_demo lsys_init)"
  define s where "s = remove_join 1 (worker_snapshot (remove_end 1 (remove_erase 1 (remove_return 0
             (remove_erase 0 (add_start 1 (add_insert 1 lc_demo s2)))))))"
  have r: "reach s" unfolding s_def s2_def
    by (rule reach_rules reach.init lc_demo_create; (simp add: joining_def worker_init_def insert_Diff_if)?)+
  have q: "\<forall>i. ls_phase s i = None \<or> ls_phase s i = Some Detached"
    by (simp add: s_def s2_def)
  have "w_thread (ls_worker s2) = Running" by (simp add: s2_def worker_init_def)
  with quiescent_thread_reset [OF r q] r q show ?thesis unfolding Let_def s_def [symmetric] s2_def [symmetric]
    by simp
qed

text \<open>C8: Termination of the thread: in a reachable state where a caller is inside join() and the thread runs with n connections left in its snapshot, the worker finishes its pass and exits, and join() returns, within n + 2 steps, whatever the acknowledgements; the caller is then detached and the thread reset.\<close>

theorem removal_join_returns:
  assumes "reach s" "ls_phase s i = Some Joining" "w_thread (ls_worker s) = Running"
  shows "\<exists>t. (lstep ^^ Suc (Suc (length (ls_pending s)))) s (remove_join i t) \<and>
             ls_phase (remove_join i t) i = Some Detached \<and> w_thread (ls_worker (remove_join i t)) = NoThread"
proof -
  have "inv_thread s" using reach_inv [OF assms(1)] by (simp add: lsys_inv_def)
  then have e: "w_thread_ending (ls_worker s)" using assms(2) by (auto simp: inv_thread_def)
  obtain t where t: "(lstep ^^ Suc (length (ls_pending s))) s t" "w_thread (ls_worker t) = Exited"
      "ls_phase t = ls_phase s"
    using worker_exit_steps [OF assms(3) e] by blast
  have "lstep t (remove_join i t)" using t(2,3) assms(2) by (intro lstep.close_join) simp_all
  with t(1) have "(lstep ^^ Suc (Suc (length (ls_pending s)))) s (remove_join i t)"
    by (rule relpowp_Suc_I)
  moreover have "ls_phase (remove_join i t) i = Some Detached" "w_thread (ls_worker (remove_join i t)) = NoThread"
    by simp_all
  ultimately show ?thesis by blast
qed

theorem removal_join_returns_witness:
  "\<exists>t. (lstep ^^ 2) (remove_end 1 (remove_erase 1 (remove_return 0 (remove_erase 0 (add_start 1
          (add_insert 1 lc_demo (add_start 0 (add_insert 0 lc_demo lsys_init)))))))) (remove_join 1 t) \<and>
        w_thread (ls_worker (remove_join 1 t)) = NoThread"
proof -
  define s where "s = remove_end 1 (remove_erase 1 (remove_return 0 (remove_erase 0 (add_start 1
          (add_insert 1 lc_demo (add_start 0 (add_insert 0 lc_demo lsys_init)))))))"
  have r: "reach s" unfolding s_def
    by (rule reach_rules reach.init lc_demo_create; (simp add: joining_def worker_init_def insert_Diff_if)?)+
  have "ls_phase s 1 = Some Joining" "w_thread (ls_worker s) = Running" "ls_pending s = []"
    by (simp_all add: s_def worker_init_def)
  with removal_join_returns [OF r] show ?thesis unfolding s_def [symmetric] numeral_2_eq_2 by auto
qed

end
