(* ===== verification/Spec2Isabelle.thy ===== *)
theory Spec2Isabelle
  imports Lifecycle
begin

text \<open>
  \<^bold>\<open>A verification development of crazyflie-link-cpp.\<close>

  The library links a host to Crazyflie quadcopters over a Crazyradio
  dongle or directly over USB. Its sources are two files:
  \<^item> src/src/CrazyradioThread.cpp: the radio thread of one dongle
    (\<open>CrazyradioThread\<close>). \<open>run\<close> loops forever; each pass copies the set
    of attached connections, and for each connection reconfigures the
    radio, transmits one frame (the safelink handshake, the send queue's top
    with the safelink bits, the queue's top, or a ping) and processes the
    acknowledgement (RSSI update or push onto the receive queue).
    \<open>addConnection\<close> and \<open>removeConnection\<close> attach and detach connections
    and start and join the thread.
  \<^item> src/src/Connection.cpp: the \<open>Connection\<close> facade: URI parsing in the
    constructor, \<open>send\<close>, \<open>recv\<close>, the destructor, \<open>scan\<close>.
  The types they use (\<open>Packet\<close>, \<open>Crazyradio\<close>, \<open>ConnectionImpl\<close>,
  \<open>USBManager\<close>) are declared in headers outside src/; they are modelled
  from the spec and marked so in the manifest.

  \<^bold>\<open>Theories.\<close>
  \<^item> \<open>Prelude\<close>: the byte and handle types, the error values standing for
    the C++ exceptions and crashes, bit-level and list lemmas.
  \<^item> \<open>Packet\<close>: the CRTP packet, its header fields (port 7..4, safelink
    3..2, channel 1..0), serialisation \<open>raw\<close> and parsing. Lemmas: field
    bounds, setters write exactly their field, serialise/parse round trip,
    the 30-byte payload bound.
  \<^item> \<open>PQueue\<close>: \<open>std::priority_queue<Packet>\<close> as a list sorted greatest
    first under \<open>Packet::operator<\<close>; refinement of a multiset queue with a
    maximal top; equal-priority packets leave in sequence order.
  \<^item> \<open>Radio\<close>: the dongle driver as cached configuration plus the log of
    USB transfers it makes; the acknowledgement of a transmission is an
    input from the environment (\<open>ack_result\<close>).
  \<^item> \<open>ConnImpl\<close>: \<open>ConnectionImpl\<close> and its statistics, and the
    connection invariant \<open>conn_inv\<close>.
  \<^item> \<open>Worker\<close>: \<open>CrazyradioThread::run\<close>: \<open>con_cycle\<close> is one
    transmit-and-acknowledge cycle (lines 113-206), built from
    \<open>reconfigure\<close>, \<open>select_send\<close> (\<open>send_safelink_init\<close>,
    \<open>send_safelink\<close>, \<open>send_plain\<close>) and \<open>deliver_ack\<close>; \<open>run_cycles\<close>
    and \<open>worker_pass\<close> are one pass of the loop (lines 87-206). Lemmas: the
    cycle keeps \<open>conn_inv\<close>, sends exactly one frame, changes nothing but
    \<open>sent_count\<close> when unacknowledged (so the frame is retransmitted), the
    safelink and plain transitions, RSSI handling, no redundant
    reconfiguration, one cycle per attached connection per pass, detached
    connections untouched.
  \<^item> \<open>Uri\<close> and \<open>Connection\<close>: the constructor of Connection.cpp (lines
    13-65) with its regular expression as a field splitter and digit tests,
    \<open>std::stoi\<close> and \<open>std::stoul\<close> with their range errors; \<open>send\<close>,
    \<open>recv\<close>, the destructor's test, \<open>uri()\<close>, \<open>operator<<\<close> and \<open>scan\<close>
    (lines 75-126, the probes' outcomes an input; \<open>probe_decide\<close> is one
    poll of a probe's lambda). Lemmas: a printed radio URI parses back to
    its fields (scenario S1, and any channel up to INT_MAX is accepted), the
    constructor's error paths for every URI, the inverted null test of
    \<open>send\<close>/\<open>recv\<close>, the probe count, and the probe race: a probe that polls
    between the worker's \<open>++sent_count\<close> and \<open>++ack_count\<close> reports no
    answer for an acknowledged first frame.
  \<^item> \<open>Lifecycle\<close>: \<open>addConnection\<close>, \<open>removeConnection\<close> and the
    worker's snapshot and cycles as an inductive interleaving \<open>lstep\<close> of
    the critical sections (lines 27-106), with the callers' \<open>send\<close> and
    \<open>recv\<close>; \<open>reach\<close> is its reflexive closure from an idle thread. Lemmas:
    the lifecycle invariant by rule induction, the radio connections' queues
    frozen by the null dereference, termination of \<open>join()\<close> within
    \<open>n + 2\<close> steps, a quiescent system has its thread joined and reset
    (scenario S6 for every schedule), and three traces: the removal wait that
    never blocks, the add/remove race that leaves a connection without a
    thread, and the second \<open>join()\<close> that throws.

  \<^bold>\<open>Choices.\<close> Counters are unbounded \<open>nat\<close> (64-bit counters do not
  wrap at one increment per millisecond); header bytes are \<open>8 word\<close>; the
  address is a \<open>64 word\<close> (\<open>std::stoul\<close>). The worker's loop is
  \<open>while (true)\<close>; a pass is a function of the acknowledgements the target
  returns, so every lemma holds for every behaviour of the air. Critical
  sections are atomic steps; the one-millisecond sleep and the condition
  variable notifications carry no state and are not steps. The statistics
  are read without a lock, so the probe race is stated on the connection
  between the two halves of a cycle (\<open>select_send\<close>, then
  \<open>deliver_ack\<close>), which a concurrent reader can observe. The liveness
  bound of \<open>join()\<close> counts the worker's own steps: the snapshot has at most
  as many entries as there were connections, each cycle removes one, and
  the next snapshot exits.

  \<^bold>\<open>Safelink.\<close> For a radio connection the send queue stays empty
  (\<open>send\<close> dereferences the null pointer), so in this code the safelink
  branch only ever transmits pings; its per-cycle behaviour is proved in
  \<open>Worker\<close>, and no end-to-end delivery property is stated, since no
  application packet reaches the worker.

  \<^bold>\<open>Not modelled.\<close> \<open>USBManager\<close> and \<open>CrazyflieUSB\<close> (outside src/;
  only their interface is used), the libusb transfers behind the radio log,
  the \<open>~CrazyradioThread\<close> destructor (run once at process exit), and the
  order in which a \<open>std::set\<close> of shared pointers is iterated (the model
  uses handle order; no lemma depends on it).
\<close>

end
